theory Spec2Isabelle
  imports Complex_Main "HOL-Library.Multiset"
begin

section \<open>JavaScript values\<close>

text \<open>
  A JavaScript number is NaN, one of the two infinities, or a finite value. Finite values
  are rationals and the arithmetic on them is exact: rounding, overflow and the negative
  zero of IEEE doubles are outside the model. What the model keeps is the part of the
  arithmetic the tools branch on: NaN from \<open>0 / 0\<close> and from \<open>Infinity - Infinity\<close>,
  the infinities from a division by zero, and NaN failing every comparison.
\<close>

datatype jsnum = NaN | NegInf | Fin rat | PosInf

fun isNaN :: "jsnum \<Rightarrow> bool" where
  "isNaN NaN = True"
| "isNaN _ = False"

fun isFinite :: "jsnum \<Rightarrow> bool" where
  "isFinite (Fin _) = True"
| "isFinite _ = False"

fun js_neg :: "jsnum \<Rightarrow> jsnum" where
  "js_neg NaN = NaN"
| "js_neg NegInf = PosInf"
| "js_neg PosInf = NegInf"
| "js_neg (Fin a) = Fin (- a)"

fun js_add :: "jsnum \<Rightarrow> jsnum \<Rightarrow> jsnum" where
  "js_add (Fin a) (Fin b) = Fin (a + b)"
| "js_add NaN _ = NaN"
| "js_add _ NaN = NaN"
| "js_add PosInf NegInf = NaN"
| "js_add NegInf PosInf = NaN"
| "js_add PosInf _ = PosInf"
| "js_add _ PosInf = PosInf"
| "js_add NegInf _ = NegInf"
| "js_add _ NegInf = NegInf"

definition js_sub :: "jsnum \<Rightarrow> jsnum \<Rightarrow> jsnum" where
  "js_sub a b = js_add a (js_neg b)"

fun js_sign_inf :: "bool \<Rightarrow> jsnum" where
  "js_sign_inf True = PosInf"
| "js_sign_inf False = NegInf"

fun js_mul :: "jsnum \<Rightarrow> jsnum \<Rightarrow> jsnum" where
  "js_mul (Fin a) (Fin b) = Fin (a * b)"
| "js_mul NaN _ = NaN"
| "js_mul _ NaN = NaN"
| "js_mul PosInf (Fin b) = (if b = 0 then NaN else js_sign_inf (0 < b))"
| "js_mul NegInf (Fin b) = (if b = 0 then NaN else js_sign_inf (b < 0))"
| "js_mul (Fin a) PosInf = (if a = 0 then NaN else js_sign_inf (0 < a))"
| "js_mul (Fin a) NegInf = (if a = 0 then NaN else js_sign_inf (a < 0))"
| "js_mul PosInf PosInf = PosInf"
| "js_mul NegInf NegInf = PosInf"
| "js_mul PosInf NegInf = NegInf"
| "js_mul NegInf PosInf = NegInf"

text \<open>
  Division: \<open>0 / 0\<close> and \<open>\<plusminus>Infinity / \<plusminus>Infinity\<close> are NaN; a non-zero finite value
  over zero is an infinity (the model's only zero is the positive one).
\<close>

fun js_div :: "jsnum \<Rightarrow> jsnum \<Rightarrow> jsnum" where
  "js_div (Fin a) (Fin b) =
     (if b = 0 then (if a = 0 then NaN else js_sign_inf (0 < a)) else Fin (a / b))"
| "js_div NaN _ = NaN"
| "js_div _ NaN = NaN"
| "js_div (Fin a) PosInf = Fin 0"
| "js_div (Fin a) NegInf = Fin 0"
| "js_div PosInf (Fin b) = js_sign_inf (0 \<le> b)"
| "js_div NegInf (Fin b) = js_sign_inf (b < 0)"
| "js_div PosInf PosInf = NaN"
| "js_div PosInf NegInf = NaN"
| "js_div NegInf PosInf = NaN"
| "js_div NegInf NegInf = NaN"

fun js_lt :: "jsnum \<Rightarrow> jsnum \<Rightarrow> bool" where
  "js_lt (Fin a) (Fin b) = (a < b)"
| "js_lt NaN _ = False"
| "js_lt _ NaN = False"
| "js_lt NegInf NegInf = False"
| "js_lt NegInf _ = True"
| "js_lt _ NegInf = False"
| "js_lt PosInf _ = False"
| "js_lt _ PosInf = True"

definition js_gt :: "jsnum \<Rightarrow> jsnum \<Rightarrow> bool" where
  "js_gt a b = js_lt b a"

text \<open>\<open>a \<le> b\<close> on numbers: false as soon as one side is NaN.\<close>

definition js_le :: "jsnum \<Rightarrow> jsnum \<Rightarrow> bool" where
  "js_le a b = (\<not> isNaN a \<and> \<not> isNaN b \<and> \<not> js_lt b a)"

fun Math_floor :: "jsnum \<Rightarrow> jsnum" where
  "Math_floor (Fin a) = Fin (of_int \<lfloor>a\<rfloor>)"
| "Math_floor x = x"

fun Math_abs :: "jsnum \<Rightarrow> jsnum" where
  "Math_abs (Fin a) = Fin \<bar>a\<bar>"
| "Math_abs NegInf = PosInf"
| "Math_abs x = x"

text \<open>\<open>Math.min(a, b)\<close> and \<open>Math.max(a, b)\<close>: NaN if either argument is NaN.\<close>

definition Math_min2 :: "jsnum \<Rightarrow> jsnum \<Rightarrow> jsnum" where
  "Math_min2 a b = (if isNaN a \<or> isNaN b then NaN else if js_lt b a then b else a)"

definition Math_max2 :: "jsnum \<Rightarrow> jsnum \<Rightarrow> jsnum" where
  "Math_max2 a b = (if isNaN a \<or> isNaN b then NaN else if js_lt a b then b else a)"

text \<open>
  \<open>Math.min(...values)\<close> and \<open>Math.max(...values)\<close>: with no argument they are
  \<open>Infinity\<close> and \<open>-Infinity\<close>.
\<close>

definition Math_min :: "jsnum list \<Rightarrow> jsnum" where
  "Math_min xs = foldl Math_min2 PosInf xs"

definition Math_max :: "jsnum list \<Rightarrow> jsnum" where
  "Math_max xs = foldl Math_max2 NegInf xs"

definition js_of_nat :: "nat \<Rightarrow> jsnum" where
  "js_of_nat n = Fin (of_nat n)"

text \<open>\<open>values.reduce((sum, val) => sum + val, 0)\<close>\<close>

definition sum_reduce :: "jsnum list \<Rightarrow> jsnum" where
  "sum_reduce xs = foldl js_add (Fin 0) xs"

text \<open>
  A row value is a scalar (section 3 of the specification): undefined (also what reading
  a missing field gives), null, a boolean, a number or a string.
\<close>

datatype jsval = JUndef | JNull | JBool bool | JNum jsnum | JStr string

fun truthy :: "jsval \<Rightarrow> bool" where
  "truthy JUndef = False"
| "truthy JNull = False"
| "truthy (JBool b) = b"
| "truthy (JNum n) = (\<not> isNaN n \<and> n \<noteq> Fin 0)"
| "truthy (JStr s) = (s \<noteq> [])"

text \<open>\<open>typeof val === 'number' && !isNaN(val)\<close>\<close>

fun is_number :: "jsval \<Rightarrow> bool" where
  "is_number (JNum n) = (\<not> isNaN n)"
| "is_number _ = False"

fun the_number :: "jsval \<Rightarrow> jsnum" where
  "the_number (JNum n) = n"
| "the_number _ = NaN"

text \<open>
  A row is a plain object, kept as an association list in the order \<open>Object.keys\<close>
  enumerates it (keys distinct). Reading a field that is not there gives undefined.
\<close>

type_synonym row = "(string \<times> jsval) list"

definition get :: "row \<Rightarrow> string \<Rightarrow> jsval" where
  "get r c = (case map_of r c of None \<Rightarrow> JUndef | Some v \<Rightarrow> v)"

definition Object_keys :: "row \<Rightarrow> string list" where
  "Object_keys r = map fst r"

text \<open>\<open>obj[k] = v\<close>: an existing key keeps its place, a new key goes last.\<close>

fun set_field :: "string \<Rightarrow> jsval \<Rightarrow> row \<Rightarrow> row" where
  "set_field k v [] = [(k, v)]"
| "set_field k v ((k', v') # r) = (if k = k' then (k, v) # r else (k', v') # set_field k v r)"

text \<open>
  The conversions between numbers and strings are the language's own (\<open>Number::toString\<close>
  and the string case of \<open>parseFloat\<close>); every function that needs one takes it as a
  parameter: \<open>ns\<close> prints a number, \<open>pf\<close> parses a string. \<open>parseFloat\<close> of a number
  prints it and parses it back, which gives the number again; of anything that is not a
  number or a string it is NaN.
\<close>

fun parseFloat :: "(string \<Rightarrow> jsnum) \<Rightarrow> jsval \<Rightarrow> jsnum" where
  "parseFloat pf (JNum n) = n"
| "parseFloat pf (JStr s) = pf s"
| "parseFloat pf _ = NaN"

text \<open>\<open>v?.toString()\<close>: undefined for null and undefined.\<close>

fun toString_opt :: "(jsnum \<Rightarrow> string) \<Rightarrow> jsval \<Rightarrow> string option" where
  "toString_opt ns JUndef = None"
| "toString_opt ns JNull = None"
| "toString_opt ns (JBool b) = Some (if b then ''true'' else ''false'')"
| "toString_opt ns (JNum n) = Some (ns n)"
| "toString_opt ns (JStr s) = Some s"

section \<open>Strings\<close>

text \<open>
  Strings are ASCII. \<open>toUpperCase\<close>, \<open>trim\<close> and the character classes \<open>\s\<close>, \<open>\w\<close>
  and \<open>.\<close> of the regular expressions are those of JavaScript on ASCII characters.
\<close>

definition is_lower :: "char \<Rightarrow> bool" where
  "is_lower c = ((97::nat) \<le> of_char c \<and> of_char c \<le> (122::nat))"

definition upper_char :: "char \<Rightarrow> char" where
  "upper_char c = (if is_lower c then char_of (of_char c - (32::nat)) else c)"

definition toUpperCase :: "string \<Rightarrow> string" where
  "toUpperCase s = map upper_char s"

definition is_space :: "char \<Rightarrow> bool" where
  "is_space c = ((of_char c :: nat) \<in> {9, 10, 11, 12, 13, 32})"

definition is_line_term :: "char \<Rightarrow> bool" where
  "is_line_term c = ((of_char c :: nat) \<in> {10, 13})"

definition is_word :: "char \<Rightarrow> bool" where
  "is_word c = (let n = of_char c :: nat in
     (48 \<le> n \<and> n \<le> 57) \<or> (65 \<le> n \<and> n \<le> 90) \<or> n = 95 \<or> (97 \<le> n \<and> n \<le> 122))"

definition trim :: "string \<Rightarrow> string" where
  "trim s = rev (dropWhile is_space (rev (dropWhile is_space s)))"

fun starts_with :: "string \<Rightarrow> string \<Rightarrow> bool" where
  "starts_with [] s = True"
| "starts_with (p # ps) [] = False"
| "starts_with (p # ps) (c # cs) = (p = c \<and> starts_with ps cs)"

text \<open>\<open>s.includes(p)\<close>\<close>

fun str_includes :: "string \<Rightarrow> string \<Rightarrow> bool" where
  "str_includes p [] = (p = [])"
| "str_includes p (c # cs) = (starts_with p (c # cs) \<or> str_includes p cs)"

text \<open>\<open>s.split(sep)\<close> for a separator of one character.\<close>

fun str_split :: "char \<Rightarrow> string \<Rightarrow> string list" where
  "str_split sep [] = [[]]"
| "str_split sep (c # cs) =
     (if c = sep then [] # str_split sep cs
      else (case str_split sep cs of [] \<Rightarrow> [[c]] | p # ps \<Rightarrow> (c # p) # ps))"

text \<open>
  A keyword of a case-insensitive regular expression at the start of a string: the rest
  of the string after it, if it matches.
\<close>

fun match_ci :: "string \<Rightarrow> string \<Rightarrow> string option" where
  "match_ci [] s = Some s"
| "match_ci (k # ks) [] = None"
| "match_ci (k # ks) (c # cs) = (if upper_char c = k then match_ci ks cs else None)"

text \<open>\<open>\s+\<close> followed by something that starts with no white space: the rest after it.\<close>

definition match_spaces :: "string \<Rightarrow> string option" where
  "match_spaces s = (case s of [] \<Rightarrow> None
     | c # cs \<Rightarrow> if is_space c then Some (dropWhile is_space cs) else None)"


section \<open>The SQL query tool\<close>

datatype query_type = SELECT | AGGREGATE | GROUP_BY | FILTER

record query_result =
  rows :: "row list"
  queryType :: query_type

subsection \<open>Column classification\<close>

definition getNumericColumns :: "row list \<Rightarrow> string list" where
  "getNumericColumns data =
     (case data of [] \<Rightarrow> []
      | r0 # _ \<Rightarrow>
          filter (\<lambda>col. list_ex is_number (map (\<lambda>row. get row col) (take 10 data)))
            (Object_keys r0))"

definition getCategoricalColumns :: "row list \<Rightarrow> string list" where
  "getCategoricalColumns data =
     (case data of [] \<Rightarrow> []
      | r0 # _ \<Rightarrow> filter (\<lambda>col. col \<notin> set (getNumericColumns data)) (Object_keys r0))"

subsection \<open>The two regular expressions\<close>

text \<open>
  \<open>/GROUP\s+BY\s+(\w+)/i\<close> at the start of a string. Each \<open>\s+\<close> is followed by a
  character that is no white space, so it takes all the white space there is and giving
  some back never helps; \<open>\w+\<close> is greedy and nothing follows it.
\<close>

definition match_group_by :: "string \<Rightarrow> string option" where
  "match_group_by s =
     (case match_ci ''GROUP'' s of None \<Rightarrow> None
      | Some r1 \<Rightarrow>
     (case match_spaces r1 of None \<Rightarrow> None
      | Some r2 \<Rightarrow>
     (case match_ci ''BY'' r2 of None \<Rightarrow> None
      | Some r3 \<Rightarrow>
     (case match_spaces r3 of None \<Rightarrow> None
      | Some r4 \<Rightarrow>
          (let w = takeWhile is_word r4 in if w = [] then None else Some w)))))"

text \<open>\<open>query.match(...)\<close> takes the leftmost position where the expression matches.\<close>

fun extractGroupByColumn :: "string \<Rightarrow> string option" where
  "extractGroupByColumn [] = None"
| "extractGroupByColumn (c # cs) =
     (case match_group_by (c # cs) of
        Some w \<Rightarrow> Some w
      | None \<Rightarrow> extractGroupByColumn cs)"

text \<open>
  \<open>/WHERE\s+(.+?)(?:\s+GROUP\s+BY|\s+ORDER\s+BY|$)/i\<close>. The lazy group stops at the
  first place where the rest is empty or is white space followed by one of the two
  keyword pairs; \<open>.\<close> matches no line terminator.
\<close>

definition clause_end :: "string \<Rightarrow> bool" where
  "clause_end t =
     (t = [] \<or>
      (case match_spaces t of None \<Rightarrow> False
       | Some r1 \<Rightarrow>
           (case match_ci ''GROUP'' r1 of
              Some r2 \<Rightarrow> (case match_spaces r2 of None \<Rightarrow> False
                           | Some r3 \<Rightarrow> match_ci ''BY'' r3 \<noteq> None)
            | None \<Rightarrow> False) \<or>
           (case match_ci ''ORDER'' r1 of
              Some r2 \<Rightarrow> (case match_spaces r2 of None \<Rightarrow> False
                           | Some r3 \<Rightarrow> match_ci ''BY'' r3 \<noteq> None)
            | None \<Rightarrow> False)))"

text \<open>The lazy \<open>.+?\<close> after it has taken \<open>acc\<close> (at least one character).\<close>

fun lazy_dots :: "string \<Rightarrow> string \<Rightarrow> string option" where
  "lazy_dots acc [] = Some acc"
| "lazy_dots acc (c # cs) =
     (if clause_end (c # cs) then Some acc
      else if is_line_term c then None
      else lazy_dots (acc @ [c]) cs)"

definition match_clause :: "string \<Rightarrow> string option" where
  "match_clause t =
     (case t of [] \<Rightarrow> None
      | c # cs \<Rightarrow> if is_line_term c then None else lazy_dots [c] cs)"

text \<open>
  The greedy \<open>\s+\<close> after \<open>WHERE\<close> first takes all \<open>n\<close> white-space characters, and
  gives them back one at a time while the rest of the expression fails.
\<close>

fun where_spaces :: "nat \<Rightarrow> string \<Rightarrow> string option" where
  "where_spaces 0 r = None"
| "where_spaces (Suc j) r =
     (case match_clause (drop (Suc j) r) of
        Some cl \<Rightarrow> Some cl
      | None \<Rightarrow> where_spaces j r)"

definition match_where :: "string \<Rightarrow> string option" where
  "match_where s =
     (case match_ci ''WHERE'' s of None \<Rightarrow> None
      | Some r \<Rightarrow> where_spaces (length (takeWhile is_space r)) r)"

fun find_where :: "string \<Rightarrow> string option" where
  "find_where [] = None"
| "find_where (c # cs) =
     (case match_where (c # cs) of
        Some cl \<Rightarrow> Some cl
      | None \<Rightarrow> find_where cs)"

definition extractFilterCondition :: "string \<Rightarrow> string option" where
  "extractFilterCondition query = map_option trim (find_where query)"

subsection \<open>The four executors\<close>

definition executeSelectQuery :: "string \<Rightarrow> row list \<Rightarrow> string list \<Rightarrow> query_result" where
  "executeSelectQuery query data columns = \<lparr>rows = data, queryType = SELECT\<rparr>"

text \<open>
  \<open>data.map(row => row[col]).filter(val => typeof val === 'number' && !isNaN(val))\<close>
\<close>

definition numeric_values :: "row list \<Rightarrow> string \<Rightarrow> jsnum list" where
  "numeric_values data col = map the_number (filter is_number (map (\<lambda>row. get row col) data))"

text \<open>The body of the \<open>forEach\<close> of the aggregate query, on the result built so far.\<close>

definition aggregate_column :: "row list \<Rightarrow> row \<Rightarrow> string \<Rightarrow> row" where
  "aggregate_column data result col =
     (let vals = numeric_values data col in
      if 0 < length vals then
        set_field (''max_'' @ col) (JNum (Math_max vals))
       (set_field (''min_'' @ col) (JNum (Math_min vals))
       (set_field (''avg_'' @ col) (JNum (js_div (sum_reduce vals) (js_of_nat (length vals))))
       (set_field (''sum_'' @ col) (JNum (sum_reduce vals))
       (set_field (''count_'' @ col) (JNum (js_of_nat (length vals))) result))))
      else result)"

definition executeAggregateQuery :: "string \<Rightarrow> row list \<Rightarrow> string list \<Rightarrow> query_result" where
  "executeAggregateQuery query data columns =
     \<lparr>rows = [foldl (aggregate_column data) [] (getNumericColumns data)],
      queryType = AGGREGATE\<rparr>"

text \<open>
  A \<open>Map\<close> whose values are arrays, as the list of its entries in insertion order:
  \<open>if (!m.has(k)) m.set(k, []); m.get(k).push(v)\<close>.
\<close>

fun map_push :: "'k \<Rightarrow> 'v \<Rightarrow> ('k \<times> 'v list) list \<Rightarrow> ('k \<times> 'v list) list" where
  "map_push k v [] = [(k, [v])]"
| "map_push k v ((k', vs) # m) =
     (if k = k' then (k', vs @ [v]) # m else (k', vs) # map_push k v m)"

text \<open>\<open>row[groupByColumn] || 'Unknown'\<close>\<close>

definition groupValue :: "string \<Rightarrow> row \<Rightarrow> jsval" where
  "groupValue groupByColumn row =
     (let v = get row groupByColumn in if truthy v then v else JStr ''Unknown'')"

definition group_rows :: "string \<Rightarrow> row list \<Rightarrow> (jsval \<times> row list) list" where
  "group_rows groupByColumn data =
     foldl (\<lambda>groups row. map_push (groupValue groupByColumn row) row groups) [] data"

definition group_column :: "row list \<Rightarrow> row \<Rightarrow> string \<Rightarrow> row" where
  "group_column groupData row col =
     (let vals = numeric_values groupData col in
      if 0 < length vals then
        set_field (''avg_'' @ col) (JNum (js_div (sum_reduce vals) (js_of_nat (length vals))))
       (set_field (''sum_'' @ col) (JNum (sum_reduce vals))
       (set_field (''count_'' @ col) (JNum (js_of_nat (length vals))) row))
      else row)"

definition group_result_row :: "string \<Rightarrow> jsval \<times> row list \<Rightarrow> row" where
  "group_result_row groupByColumn entry =
     (case entry of (gv, groupData) \<Rightarrow>
        foldl (group_column groupData) [(groupByColumn, gv)] (getNumericColumns groupData))"

definition executeGroupByQuery :: "string \<Rightarrow> row list \<Rightarrow> string list \<Rightarrow> query_result" where
  "executeGroupByQuery query data columns =
     (case extractGroupByColumn query of
        None \<Rightarrow> \<lparr>rows = data, queryType = SELECT\<rparr>
      | Some groupByColumn \<Rightarrow>
          if groupByColumn = [] \<or> groupByColumn \<notin> set columns
          then \<lparr>rows = data, queryType = SELECT\<rparr>
          else \<lparr>rows = map (group_result_row groupByColumn) (group_rows groupByColumn data),
                queryType = GROUP_BY\<rparr>)"

text \<open>
  The predicate of the filter: \<open>const [column, value] = filterCondition.split('=')\<close>
  takes the first two pieces (a missing piece is undefined, which is falsy like the
  empty string).
\<close>

definition strip_quotes :: "string \<Rightarrow> string" where
  "strip_quotes s = filter (\<lambda>c. c \<noteq> CHR 0x27 \<and> c \<noteq> CHR 0x22) s"

definition filter_keeps :: "(jsnum \<Rightarrow> string) \<Rightarrow> string \<Rightarrow> row \<Rightarrow> bool" where
  "filter_keeps ns filterCondition row =
     (case str_split CHR ''='' filterCondition of
        column # val # _ \<Rightarrow>
          if column \<noteq> [] \<and> val \<noteq> []
          then toString_opt ns (get row (trim column)) = Some (strip_quotes (trim val))
          else True
      | _ \<Rightarrow> True)"

definition executeFilterQuery ::
  "(jsnum \<Rightarrow> string) \<Rightarrow> string \<Rightarrow> row list \<Rightarrow> string list \<Rightarrow> query_result" where
  "executeFilterQuery ns query data columns =
     (case extractFilterCondition query of
        None \<Rightarrow> \<lparr>rows = data, queryType = SELECT\<rparr>
      | Some filterCondition \<Rightarrow>
          if filterCondition = [] then \<lparr>rows = data, queryType = SELECT\<rparr>
          else \<lparr>rows = filter (filter_keeps ns filterCondition) data, queryType = FILTER\<rparr>)"

subsection \<open>Dispatch and the tool's entry point\<close>

definition executeQuery ::
  "(jsnum \<Rightarrow> string) \<Rightarrow> string \<Rightarrow> row list \<Rightarrow> string list \<Rightarrow> query_result" where
  "executeQuery ns query data columns =
     (let upperQuery = trim (toUpperCase query) in
      if str_includes ''SELECT'' upperQuery \<and> str_includes ''FROM'' upperQuery
        then executeSelectQuery query data columns
      else if str_includes ''COUNT'' upperQuery \<or> str_includes ''SUM'' upperQuery
            \<or> str_includes ''AVG'' upperQuery
        then executeAggregateQuery query data columns
      else if str_includes ''GROUP BY'' upperQuery
        then executeGroupByQuery query data columns
      else if str_includes ''WHERE'' upperQuery
        then executeFilterQuery ns query data columns
      else \<lparr>rows = data, queryType = SELECT\<rparr>)"

record summary =
  rowCount :: nat
  columnCount :: nat
  numericColumns :: "string list"
  categoricalColumns :: "string list"

record sql_output =
  success :: bool
  result :: "row list option"
  error :: "string option"
  out_queryType :: "query_type option"
  out_summary :: "summary option"

text \<open>
  No statement of the executors throws on a table of scalar rows (the engine's limit on
  the number of arguments of \<open>Math.min(...values)\<close> is outside the model), so the
  \<open>catch\<close> of \<open>execute\<close> is never entered and every call returns the success shape.
\<close>

definition SQLQueryTool_execute ::
  "(jsnum \<Rightarrow> string) \<Rightarrow> string \<Rightarrow> row list \<Rightarrow> string list \<Rightarrow> sql_output" where
  "SQLQueryTool_execute ns query data columns =
     (let res = executeQuery ns query data columns in
      \<lparr>success = True,
       result = Some (rows res),
       error = None,
       out_queryType = Some (queryType res),
       out_summary = Some
         \<lparr>rowCount = length (rows res),
          columnCount = (case rows res of [] \<Rightarrow> 0 | r0 # _ \<Rightarrow> length (Object_keys r0)),
          numericColumns = getNumericColumns (rows res),
          categoricalColumns = getCategoricalColumns (rows res)\<rparr>\<rparr>)"


section \<open>The visualization tool\<close>

datatype chart_type = Bar | Line | Scatter | Pie | Histogram | Box

subsection \<open>Grouping by the x label\<close>

text \<open>\<open>row[xAxis]?.toString() || 'Unknown'\<close>\<close>

definition xValue :: "(jsnum \<Rightarrow> string) \<Rightarrow> string \<Rightarrow> row \<Rightarrow> string" where
  "xValue ns xAxis row =
     (case toString_opt ns (get row xAxis) of
        None \<Rightarrow> ''Unknown''
      | Some s \<Rightarrow> if s = [] then ''Unknown'' else s)"

text \<open>
  The first loop of \<open>processCategoricalData\<close> and of \<open>processBoxData\<close>: the parsed y
  values of each x label, labels in the order they are first seen with a y that parses.
\<close>

definition group_y ::
  "(jsnum \<Rightarrow> string) \<Rightarrow> (string \<Rightarrow> jsnum) \<Rightarrow> row list \<Rightarrow> string \<Rightarrow> string
     \<Rightarrow> (string \<times> jsnum list) list" where
  "group_y ns pf data xAxis yAxis =
     foldl (\<lambda>grouped row.
        let yValue = parseFloat pf (get row yAxis) in
        if \<not> isNaN yValue then map_push (xValue ns xAxis row) yValue grouped else grouped)
       [] data"

record categorical_point =
  cat_x :: string
  cat_y :: jsnum
  cat_count :: nat

definition processCategoricalData ::
  "(jsnum \<Rightarrow> string) \<Rightarrow> (string \<Rightarrow> jsnum) \<Rightarrow> row list \<Rightarrow> string \<Rightarrow> string
     \<Rightarrow> categorical_point list" where
  "processCategoricalData ns pf data xAxis yAxis =
     map (\<lambda>(xv, yValues).
        \<lparr>cat_x = xv,
         cat_y = js_div (sum_reduce yValues) (js_of_nat (length yValues)),
         cat_count = length yValues\<rparr>)
       (group_y ns pf data xAxis yAxis)"

subsection \<open>Scatter and pie\<close>

record scatter_point =
  sc_x :: jsnum
  sc_y :: jsnum

definition processScatterData ::
  "(string \<Rightarrow> jsnum) \<Rightarrow> row list \<Rightarrow> string \<Rightarrow> string \<Rightarrow> scatter_point list" where
  "processScatterData pf data xAxis yAxis =
     filter (\<lambda>point. \<not> isNaN (sc_x point) \<and> \<not> isNaN (sc_y point))
       (map (\<lambda>row. \<lparr>sc_x = parseFloat pf (get row xAxis), sc_y = parseFloat pf (get row yAxis)\<rparr>)
          data)"

text \<open>\<open>n || 0\<close> on a number: zero for NaN (and for zero).\<close>

definition or_zero :: "jsnum \<Rightarrow> jsnum" where
  "or_zero n = (if truthy (JNum n) then n else Fin 0)"

text \<open>\<open>grouped.set(k, (grouped.get(k) || 0) + v)\<close> on a \<open>Map\<close> of numbers.\<close>

fun map_accumulate :: "string \<Rightarrow> jsnum \<Rightarrow> (string \<times> jsnum) list \<Rightarrow> (string \<times> jsnum) list" where
  "map_accumulate k v [] = [(k, js_add (Fin 0) v)]"
| "map_accumulate k v ((k', w) # m) =
     (if k = k' then (k', js_add (or_zero w) v) # m else (k', w) # map_accumulate k v m)"

record pie_slice =
  label :: string
  pie_value :: jsnum

definition processPieData ::
  "(jsnum \<Rightarrow> string) \<Rightarrow> (string \<Rightarrow> jsnum) \<Rightarrow> row list \<Rightarrow> string \<Rightarrow> string
     \<Rightarrow> pie_slice list" where
  "processPieData ns pf data xAxis yAxis =
     map (\<lambda>(l, v). \<lparr>label = l, pie_value = v\<rparr>)
       (foldl (\<lambda>grouped row.
           map_accumulate (xValue ns xAxis row) (or_zero (parseFloat pf (get row yAxis))) grouped)
          [] data)"

subsection \<open>Histogram\<close>

text \<open>
  \<open>Math.ceil(Math.sqrt(n))\<close> for a length \<open>n\<close>: the least \<open>k\<close> with \<open>n \<le> k * k\<close>.
\<close>

definition ceil_sqrt :: "nat \<Rightarrow> nat" where
  "ceil_sqrt n = length (takeWhile (\<lambda>k. k * k < n) [0..<n])"

text \<open>
  \<open>bins[binIndex]++\<close> on the array of counts. An index that is no element's index (NaN,
  an infinity, a negative number or a fraction) names a property of the array object and
  leaves every element as it is. An integer index at or beyond the length would extend
  the array; the clamp of the caller keeps the index below the length.
\<close>

definition increment_bin :: "nat list \<Rightarrow> jsnum \<Rightarrow> nat list" where
  "increment_bin bins binIndex =
     (case binIndex of
        Fin q \<Rightarrow>
          if 0 \<le> q \<and> of_int \<lfloor>q\<rfloor> = q \<and> nat \<lfloor>q\<rfloor> < length bins
          then bins[nat \<lfloor>q\<rfloor> := Suc (bins ! nat \<lfloor>q\<rfloor>)]
          else bins
      | _ \<Rightarrow> bins)"

record histogram_bin =
  hist_x :: jsnum
  hist_y :: nat

definition histogram_values :: "(string \<Rightarrow> jsnum) \<Rightarrow> row list \<Rightarrow> string \<Rightarrow> jsnum list" where
  "histogram_values pf data xAxis =
     filter (\<lambda>val. \<not> isNaN val) (map (\<lambda>row. parseFloat pf (get row xAxis)) data)"

definition fill_bins :: "jsnum list \<Rightarrow> jsnum \<Rightarrow> nat \<Rightarrow> jsnum \<Rightarrow> nat list" where
  "fill_bins vals mn binCount binSize =
     foldl (\<lambda>bins val.
        increment_bin bins
          (Math_min2 (Math_floor (js_div (js_sub val mn) binSize))
             (js_sub (js_of_nat binCount) (Fin 1))))
       (replicate binCount 0) vals"

definition processHistogramData ::
  "(string \<Rightarrow> jsnum) \<Rightarrow> row list \<Rightarrow> string \<Rightarrow> histogram_bin list" where
  "processHistogramData pf data xAxis =
     (let vals = histogram_values pf data xAxis in
      if length vals = 0 then []
      else
        let mn = Math_min vals;
            mx = Math_max vals;
            binCount = min 10 (ceil_sqrt (length vals));
            binSize = js_div (js_sub mx mn) (js_of_nat binCount);
            bins = fill_bins vals mn binCount binSize
        in map (\<lambda>(count, index).
              \<lparr>hist_x = js_add mn (js_mul (js_add (js_of_nat index) (Fin (1 / 2))) binSize),
               hist_y = count\<rparr>)
             (zip bins [0..<length bins]))"

subsection \<open>Box plot\<close>

text \<open>
  \<open>yValues.sort((a, b) => a - b)\<close>: a stable sort by the sign of the difference, a
  difference that is NaN counting as zero.
\<close>

fun insert_sorted :: "jsnum \<Rightarrow> jsnum list \<Rightarrow> jsnum list" where
  "insert_sorted a [] = [a]"
| "insert_sorted a (b # bs) =
     (if js_gt (js_sub b a) (Fin 0) then a # b # bs else b # insert_sorted a bs)"

definition sort_ascending :: "jsnum list \<Rightarrow> jsnum list" where
  "sort_ascending xs = foldl (\<lambda>sorted a. insert_sorted a sorted) [] xs"

text \<open>\<open>sorted[i]\<close>: undefined (None) out of range.\<close>

definition at_index :: "'a list \<Rightarrow> nat \<Rightarrow> 'a option" where
  "at_index xs i = (if i < length xs then Some (xs ! i) else None)"

text \<open>\<open>Math.floor(sorted.length * p)\<close>\<close>

definition quantile_index :: "nat \<Rightarrow> rat \<Rightarrow> nat" where
  "quantile_index n p = nat \<lfloor>of_nat n * p\<rfloor>"

record box_entry =
  box_x :: string
  box_min :: "jsnum option"
  box_q1 :: "jsnum option"
  box_median :: "jsnum option"
  box_q3 :: "jsnum option"
  box_max :: "jsnum option"

definition box_of_group :: "string \<times> jsnum list \<Rightarrow> box_entry" where
  "box_of_group entry =
     (case entry of (xv, yValues) \<Rightarrow>
        let sorted = sort_ascending yValues in
        \<lparr>box_x = xv,
         box_min = at_index sorted 0,
         box_q1 = at_index sorted (quantile_index (length sorted) (1 / 4)),
         box_median = at_index sorted (quantile_index (length sorted) (1 / 2)),
         box_q3 = at_index sorted (quantile_index (length sorted) (3 / 4)),
         box_max = (if length sorted = 0 then None else at_index sorted (length sorted - 1))\<rparr>)"

definition processBoxData ::
  "(jsnum \<Rightarrow> string) \<Rightarrow> (string \<Rightarrow> jsnum) \<Rightarrow> row list \<Rightarrow> string \<Rightarrow> string
     \<Rightarrow> box_entry list" where
  "processBoxData ns pf data xAxis yAxis = map box_of_group (group_y ns pf data xAxis yAxis)"

subsection \<open>Dispatch on the chart type\<close>

datatype chart_data =
    CategoricalSeries "categorical_point list"
  | ScatterSeries "scatter_point list"
  | PieSeries "pie_slice list"
  | HistogramSeries "histogram_bin list"
  | BoxSeries "box_entry list"

text \<open>
  The input schema admits the six chart types only, so the final \<open>return data\<close> of
  \<open>processDataForChart\<close> is never reached.
\<close>

fun processDataForChart ::
  "(jsnum \<Rightarrow> string) \<Rightarrow> (string \<Rightarrow> jsnum) \<Rightarrow> row list \<Rightarrow> string \<Rightarrow> string \<Rightarrow> chart_type
     \<Rightarrow> chart_data" where
  "processDataForChart ns pf data xAxis yAxis Bar =
     CategoricalSeries (processCategoricalData ns pf data xAxis yAxis)"
| "processDataForChart ns pf data xAxis yAxis Line =
     CategoricalSeries (processCategoricalData ns pf data xAxis yAxis)"
| "processDataForChart ns pf data xAxis yAxis Scatter =
     ScatterSeries (processScatterData pf data xAxis yAxis)"
| "processDataForChart ns pf data xAxis yAxis Pie =
     PieSeries (processPieData ns pf data xAxis yAxis)"
| "processDataForChart ns pf data xAxis yAxis Histogram =
     HistogramSeries (processHistogramData pf data xAxis)"
| "processDataForChart ns pf data xAxis yAxis Box =
     BoxSeries (processBoxData ns pf data xAxis yAxis)"


subsection \<open>Chart configuration\<close>

record viz_options =
  color :: "string option"
  width :: "jsnum option"
  height :: "jsnum option"
  showLegend :: "bool option"

record chart_options =
  cfg_title :: string
  cfg_xAxis_label :: string
  cfg_yAxis_label :: string
  cfg_color :: string
  cfg_width :: jsnum
  cfg_height :: jsnum
  cfg_showLegend :: bool
  barWidth :: "jsnum option"
  lineWidth :: "jsnum option"
  showPoints :: "bool option"
  pointSize :: "jsnum option"
  showPercentages :: "bool option"

record chart_config =
  cfg_type :: chart_type
  cfg_data :: chart_data
  cfg_options :: chart_options

fun chart_type_name :: "chart_type \<Rightarrow> string" where
  "chart_type_name Bar = ''bar''"
| "chart_type_name Line = ''line''"
| "chart_type_name Scatter = ''scatter''"
| "chart_type_name Pie = ''pie''"
| "chart_type_name Histogram = ''histogram''"
| "chart_type_name Box = ''box''"

text \<open>\<open>s || d\<close> on an optional string and \<open>n || d\<close> on an optional number.\<close>

definition string_or :: "string option \<Rightarrow> string \<Rightarrow> string" where
  "string_or s d = (case s of Some t \<Rightarrow> if t \<noteq> [] then t else d | None \<Rightarrow> d)"

definition number_or :: "jsnum option \<Rightarrow> jsnum \<Rightarrow> jsnum" where
  "number_or n d = (case n of Some m \<Rightarrow> if truthy (JNum m) then m else d | None \<Rightarrow> d)"

text \<open>The \<open>switch\<close> that adds the chart-specific options.\<close>

fun chart_specific :: "chart_type \<Rightarrow> chart_options \<Rightarrow> chart_options" where
  "chart_specific Bar opts = opts\<lparr>barWidth := Some (Fin (4 / 5))\<rparr>"
| "chart_specific Line opts = opts\<lparr>lineWidth := Some (Fin 2), showPoints := Some True\<rparr>"
| "chart_specific Scatter opts = opts\<lparr>pointSize := Some (Fin 6)\<rparr>"
| "chart_specific Pie opts = opts\<lparr>showPercentages := Some True\<rparr>"
| "chart_specific Histogram opts = opts\<lparr>barWidth := Some (Fin 1)\<rparr>"
| "chart_specific Box opts = opts"

definition generateChartConfig ::
  "chart_type \<Rightarrow> chart_data \<Rightarrow> string \<Rightarrow> string \<Rightarrow> string option \<Rightarrow> viz_options
     \<Rightarrow> chart_config" where
  "generateChartConfig chartType chartData xAxis yAxis title options =
     \<lparr>cfg_type = chartType,
      cfg_data = chartData,
      cfg_options = chart_specific chartType
        \<lparr>cfg_title = string_or title
           (toUpperCase (take 1 (chart_type_name chartType)) @ drop 1 (chart_type_name chartType)
              @ '' Chart''),
         cfg_xAxis_label = xAxis,
         cfg_yAxis_label = yAxis,
         cfg_color = string_or (color options) ''#3B82F6'',
         cfg_width = number_or (width options) (Fin 800),
         cfg_height = number_or (height options) (Fin 600),
         cfg_showLegend = (showLegend options \<noteq> Some False),
         barWidth = None, lineWidth = None, showPoints = None, pointSize = None,
         showPercentages = None\<rparr>\<rparr>"

subsection \<open>Recommendations\<close>

fun show_nat :: "nat \<Rightarrow> string" where
  "show_nat n =
     (if n < 10 then [char_of (48 + n)] else show_nat (n div 10) @ [char_of (48 + n mod 10)])"

text \<open>
  The outlier test is \<open>Math.abs(val - mean) > 2 * std\<close> with \<open>std\<close> the square root of
  the variance. Both sides are NaN or at least zero, so the test is the one on their
  squares, which needs no square root: \<open>(val - mean)\<^sup>2 > 4 * variance\<close>.
\<close>

definition outliers :: "jsnum list \<Rightarrow> jsnum list" where
  "outliers yNumbers =
     (let n = js_of_nat (length yNumbers);
          mean = js_div (sum_reduce yNumbers) n;
          variance = js_div
            (foldl (\<lambda>sum val. js_add sum (js_mul (js_sub val mean) (js_sub val mean)))
               (Fin 0) yNumbers) n
      in filter (\<lambda>val.
            js_gt (js_mul (Math_abs (js_sub val mean)) (Math_abs (js_sub val mean)))
              (js_mul (Fin 4) variance))
           yNumbers)"

definition generateRecommendations ::
  "row list \<Rightarrow> string list \<Rightarrow> chart_type \<Rightarrow> string \<Rightarrow> string \<Rightarrow> string list" where
  "generateRecommendations data columns chartType xAxis yAxis =
     (let xIsNumeric = list_ex is_number (map (\<lambda>row. get row xAxis) data);
          yIsNumeric = list_ex is_number (map (\<lambda>row. get row yAxis) data);
          yNumbers = numeric_values data yAxis
      in
        (if chartType = Bar \<and> xIsNumeric
         then [''Consider using a line chart for numeric X-axis data''] else [])
      @ (if chartType = Line \<and> \<not> xIsNumeric
         then [''Consider using a bar chart for categorical X-axis data''] else [])
      @ (if chartType = Scatter \<and> (\<not> xIsNumeric \<or> \<not> yIsNumeric)
         then [''Scatter plots work best with numeric data on both axes''] else [])
      @ (if chartType = Pie \<and> 10 < length data
         then [''Pie charts become hard to read with more than 10 categories. Consider a bar chart instead.'']
         else [])
      @ (if yIsNumeric \<and> 0 < length yNumbers \<and> 0 < length (outliers yNumbers)
         then [''Found '' @ show_nat (length (outliers yNumbers))
                 @ '' potential outliers. Consider using a box plot to visualize the distribution.'']
         else []))"

subsection \<open>The tool's entry point\<close>

datatype error = Error string

record viz_input =
  in_data :: "row list"
  in_columns :: "string list"
  in_chartType :: chart_type
  in_xAxis :: string
  in_yAxis :: string
  in_title :: "string option"
  in_options :: "viz_options option"

record viz_output =
  viz_success :: bool
  chartData :: "chart_data option"
  chartConfig :: "chart_config option"
  viz_error :: "string option"
  recommendations :: "string list option"

text \<open>The body of the \<open>try\<close>: \<open>Inl\<close> is a thrown error.\<close>

definition execute_body ::
  "(jsnum \<Rightarrow> string) \<Rightarrow> (string \<Rightarrow> jsnum) \<Rightarrow> viz_input
     \<Rightarrow> error + chart_data \<times> chart_config \<times> string list" where
  "execute_body ns pf input =
     (let options = (case in_options input of
                       None \<Rightarrow> \<lparr>color = None, width = None, height = None, showLegend = None\<rparr>
                     | Some opts \<Rightarrow> opts)
      in
      if in_xAxis input \<notin> set (in_columns input)
        then Inl (Error (''X-axis column '' @ [CHR 0x27] @ in_xAxis input @ [CHR 0x27]
                          @ '' not found in data''))
      else if in_yAxis input \<notin> set (in_columns input)
        then Inl (Error (''Y-axis column '' @ [CHR 0x27] @ in_yAxis input @ [CHR 0x27]
                          @ '' not found in data''))
      else
        let cd = processDataForChart ns pf (in_data input) (in_xAxis input) (in_yAxis input)
                   (in_chartType input);
            cfg = generateChartConfig (in_chartType input) cd (in_xAxis input) (in_yAxis input)
                    (in_title input) options;
            recs = generateRecommendations (in_data input) (in_columns input)
                     (in_chartType input) (in_xAxis input) (in_yAxis input)
        in Inr (cd, cfg, recs))"

definition VisualizationTool_execute ::
  "(jsnum \<Rightarrow> string) \<Rightarrow> (string \<Rightarrow> jsnum) \<Rightarrow> viz_input \<Rightarrow> viz_output" where
  "VisualizationTool_execute ns pf input =
     (case execute_body ns pf input of
        Inr (cd, cfg, recs) \<Rightarrow>
          \<lparr>viz_success = True, chartData = Some cd, chartConfig = Some cfg, viz_error = None,
           recommendations = Some recs\<rparr>
      | Inl (Error message) \<Rightarrow>
          \<lparr>viz_success = False, chartData = None, chartConfig = None, viz_error = Some message,
           recommendations = None\<rparr>)"

section \<open>Predicates used to state the properties\<close>

text \<open>
  The queries that reach \<open>executeGroupByQuery\<close>: the first two tests of the dispatch
  fail and the third succeeds.
\<close>

definition reaches_group_by :: "string \<Rightarrow> bool" where
  "reaches_group_by query =
     (let u = toUpperCase query in
      \<not> (str_includes ''SELECT'' u \<and> str_includes ''FROM'' u)
      \<and> \<not> (str_includes ''COUNT'' u \<or> str_includes ''SUM'' u \<or> str_includes ''AVG'' u)
      \<and> str_includes ''GROUP BY'' u)"

text \<open>The distinct elements of a list, each at the place of its first occurrence.\<close>

definition first_seen :: "'a list \<Rightarrow> 'a list" where
  "first_seen xs = rev (remdups (rev xs))"

text \<open>
  Section 4.1 of the specification in its own words: a value counts as numeric if it is
  already of number type or, when a string, is non-empty and fully parses as a finite
  floating-point number. \<open>to_number\<close> is the conversion of a whole string to a number.
\<close>

definition spec_counts_as_numeric :: "(string \<Rightarrow> jsnum) \<Rightarrow> jsval \<Rightarrow> bool" where
  "spec_counts_as_numeric to_number v =
     (case v of JNum n \<Rightarrow> True
      | JStr s \<Rightarrow> s \<noteq> [] \<and> isFinite (to_number s)
      | _ \<Rightarrow> False)"

text \<open>A value that parses as a finite number, with \<open>parseFloat\<close> as the parser.\<close>

definition spec_parses_finite :: "(string \<Rightarrow> jsnum) \<Rightarrow> jsval \<Rightarrow> bool" where
  "spec_parses_finite pf v = isFinite (parseFloat pf v)"

text \<open>The names of the five fields of a column in the result row of an aggregate query.\<close>

definition aggregate_keys :: "string \<Rightarrow> string set" where
  "aggregate_keys col = {''count_'' @ col, ''sum_'' @ col, ''avg_'' @ col, ''min_'' @ col, ''max_'' @ col}"

text \<open>
  The filter as the specification words it: the clause is split at its first \<open>=\<close> into
  a column part and a value part, the quotes around the value are stripped, and a row is
  kept when the string form of its value for the column is that literal; without a
  \<open>=\<close>, or with an empty column part, every row is kept.
\<close>

definition is_quote :: "char \<Rightarrow> bool" where
  "is_quote c = (c = CHR 0x27 \<or> c = CHR 0x22)"

definition strip_surrounding_quotes :: "string \<Rightarrow> string" where
  "strip_surrounding_quotes s =
     (let t = (case s of c # cs \<Rightarrow> if is_quote c then cs else s | [] \<Rightarrow> s)
      in if t \<noteq> [] \<and> is_quote (last t) then butlast t else t)"

definition spec_filter_keeps :: "(jsnum \<Rightarrow> string) \<Rightarrow> string \<Rightarrow> row \<Rightarrow> bool" where
  "spec_filter_keeps ns clause row =
     (let column = takeWhile (\<lambda>c. c \<noteq> CHR ''='') clause;
          val = drop 1 (dropWhile (\<lambda>c. c \<noteq> CHR ''='') clause)
      in if CHR ''='' \<notin> set clause \<or> column = [] then True
         else toString_opt ns (get row (trim column))
                = Some (strip_surrounding_quotes (trim val)))"

text \<open>The names of the three fields of a column in a result row of a GROUP BY query.\<close>

definition group_keys :: "string \<Rightarrow> string set" where
  "group_keys col = {''count_'' @ col, ''sum_'' @ col, ''avg_'' @ col}"

text \<open>
  The group label as the specification words it: the string form of the value, a row
  with no value for the column taking the label \<open>Unknown\<close>.
\<close>

definition spec_group_label :: "(jsnum \<Rightarrow> string) \<Rightarrow> string \<Rightarrow> row \<Rightarrow> string" where
  "spec_group_label ns g row =
     (case toString_opt ns (get row g) of None \<Rightarrow> ''Unknown'' | Some s \<Rightarrow> s)"

text \<open>
  The y values of a box-plot group: the parsed y of the rows whose x label is \<open>k\<close> and
  whose y parses (is not NaN), in table order.
\<close>

definition group_values ::
  "(jsnum \<Rightarrow> string) \<Rightarrow> (string \<Rightarrow> jsnum) \<Rightarrow> row list \<Rightarrow> string \<Rightarrow> string \<Rightarrow> string
     \<Rightarrow> jsnum list" where
  "group_values ns pf data xAxis yAxis k =
     map (\<lambda>row. parseFloat pf (get row yAxis))
       (filter (\<lambda>row. \<not> isNaN (parseFloat pf (get row yAxis)) \<and> xValue ns xAxis row = k) data)"

section \<open>Properties of the string functions\<close>


lemma starts_with_iff: "starts_with p s \<longleftrightarrow> (\<exists>b. s = p @ b)"
  by (induction p s rule: starts_with.induct) auto

lemma str_includes_iff: "str_includes p s \<longleftrightarrow> (\<exists>a b. s = a @ p @ b)"
proof (induction s)
  case Nil
  then show ?case by auto
next
  case (Cons c cs)
  show ?case
  proof
    assume "str_includes p (c # cs)"
    then consider "starts_with p (c # cs)" | "str_includes p cs" by auto
    then show "\<exists>a b. c # cs = a @ p @ b"
    proof cases
      case 1
      then obtain b where "c # cs = p @ b" by (auto simp: starts_with_iff)
      then have "c # cs = [] @ p @ b" by simp
      then show ?thesis by blast
    next
      case 2
      then obtain a b where "cs = a @ p @ b" using Cons.IH by auto
      then have "c # cs = (c # a) @ p @ b" by simp
      then show ?thesis by blast
    qed
  next
    assume "\<exists>a b. c # cs = a @ p @ b"
    then obtain a b where ab: "c # cs = a @ p @ b" by auto
    show "str_includes p (c # cs)"
    proof (cases a)
      case Nil
      then have "starts_with p (c # cs)" using ab by (auto simp: starts_with_iff)
      then show ?thesis by simp
    next
      case (Cons a0 as)
      then have "cs = as @ p @ b" using ab by simp
      then have "str_includes p cs" using Cons.IH by blast
      then show ?thesis by simp
    qed
  qed
qed

lemma str_includes_rev: "str_includes (rev p) (rev s) = str_includes p s"
proof -
  have "(\<exists>a b. rev s = a @ rev p @ b) \<longleftrightarrow> (\<exists>a b. s = a @ p @ b)"
  proof
    assume "\<exists>a b. rev s = a @ rev p @ b"
    then obtain a b where "rev s = a @ rev p @ b" by auto
    then have "rev (rev s) = rev (a @ rev p @ b)" by simp
    then have "s = rev b @ p @ rev a" by simp
    then show "\<exists>a b. s = a @ p @ b" by blast
  next
    assume "\<exists>a b. s = a @ p @ b"
    then obtain a b where "s = a @ p @ b" by auto
    then have "rev s = rev b @ rev p @ rev a" by simp
    then show "\<exists>a b. rev s = a @ rev p @ b" by blast
  qed
  then show ?thesis by (simp add: str_includes_iff)
qed

lemma str_includes_dropWhile:
  assumes "p \<noteq> []" and "\<not> is_space (hd p)"
  shows "str_includes p (dropWhile is_space s) = str_includes p s"
proof (induction s)
  case Nil
  then show ?case by simp
next
  case (Cons c cs)
  show ?case
  proof (cases "is_space c")
    case True
    have "\<not> starts_with p (c # cs)"
      using assms True by (cases p) auto
    then show ?thesis using True Cons.IH by simp
  next
    case False
    then show ?thesis by simp
  qed
qed

lemma str_includes_trim:
  assumes "p \<noteq> []" and "\<not> is_space (hd p)" and "\<not> is_space (last p)"
  shows "str_includes p (trim s) = str_includes p s"
proof -
  have r: "rev p \<noteq> []" "\<not> is_space (hd (rev p))"
    using assms by (simp_all add: hd_rev)
  have "str_includes p (trim s)
      = str_includes (rev p) (dropWhile is_space (rev (dropWhile is_space s)))"
    unfolding trim_def by (metis str_includes_rev rev_rev_ident)
  also have "\<dots> = str_includes (rev p) (rev (dropWhile is_space s))"
    by (rule str_includes_dropWhile[OF r])
  also have "\<dots> = str_includes p (dropWhile is_space s)"
    by (rule str_includes_rev)
  also have "\<dots> = str_includes p s"
    by (rule str_includes_dropWhile[OF assms(1,2)])
  finally show ?thesis .
qed

lemma keyword_trim:
  "str_includes ''SELECT'' (trim s) = str_includes ''SELECT'' s"
  "str_includes ''FROM'' (trim s) = str_includes ''FROM'' s"
  "str_includes ''COUNT'' (trim s) = str_includes ''COUNT'' s"
  "str_includes ''SUM'' (trim s) = str_includes ''SUM'' s"
  "str_includes ''AVG'' (trim s) = str_includes ''AVG'' s"
  "str_includes ''GROUP BY'' (trim s) = str_includes ''GROUP BY'' s"
  "str_includes ''WHERE'' (trim s) = str_includes ''WHERE'' s"
  by (rule str_includes_trim; simp add: is_space_def)+

lemma str_split_unfold:
  "str_split sep s =
     takeWhile (\<lambda>c. c \<noteq> sep) s
       # (case dropWhile (\<lambda>c. c \<noteq> sep) s of [] \<Rightarrow> [] | _ # rest \<Rightarrow> str_split sep rest)"
  by (induction s) (auto split: list.splits)

lemma str_split_no_sep: "sep \<notin> set s \<Longrightarrow> str_split sep s = [s]"
  by (induction s) auto

lemma dropWhile_sep_Cons:
  "sep \<in> set s \<Longrightarrow>
   dropWhile (\<lambda>c. c \<noteq> sep) s = sep # drop 1 (dropWhile (\<lambda>c. c \<noteq> sep) s)"
  by (induction s) auto

lemma str_split_two:
  assumes "sep \<in> set s"
  shows "\<exists>more. str_split sep s =
           takeWhile (\<lambda>c. c \<noteq> sep) s
             # takeWhile (\<lambda>c. c \<noteq> sep) (drop 1 (dropWhile (\<lambda>c. c \<noteq> sep) s))
             # more"
proof -
  let ?rest = "drop 1 (dropWhile (\<lambda>c. c \<noteq> sep) s)"
  have "str_split sep s = takeWhile (\<lambda>c. c \<noteq> sep) s # str_split sep ?rest"
    using dropWhile_sep_Cons[OF assms] str_split_unfold[of sep s]
    by (metis list.simps(5))
  moreover obtain more where "str_split sep ?rest = takeWhile (\<lambda>c. c \<noteq> sep) ?rest # more"
    using str_split_unfold[of sep ?rest] by blast
  ultimately show ?thesis by simp
qed

lemma filter_keeps_eq:
  "filter_keeps ns clause row =
     (let column = takeWhile (\<lambda>c. c \<noteq> CHR ''='') clause;
          val = takeWhile (\<lambda>c. c \<noteq> CHR ''='') (drop 1 (dropWhile (\<lambda>c. c \<noteq> CHR ''='') clause))
      in if CHR ''='' \<in> set clause \<and> column \<noteq> [] \<and> val \<noteq> []
         then toString_opt ns (get row (trim column)) = Some (strip_quotes (trim val))
         else True)"
proof (cases "CHR ''='' \<in> set clause")
  case True
  then obtain more where "str_split CHR ''='' clause =
           takeWhile (\<lambda>c. c \<noteq> CHR ''='') clause
             # takeWhile (\<lambda>c. c \<noteq> CHR ''='') (drop 1 (dropWhile (\<lambda>c. c \<noteq> CHR ''='') clause))
             # more"
    using str_split_two by blast
  then show ?thesis using True by (simp add: filter_keeps_def Let_def)
next
  case False
  then show ?thesis by (simp add: filter_keeps_def str_split_no_sep)
qed

section \<open>Grouping\<close>


lemma first_seen_snoc:
  "first_seen (xs @ [k]) = (if k \<in> set xs then first_seen xs else first_seen xs @ [k])"
  by (simp add: first_seen_def)

lemma set_first_seen: "set (first_seen xs) = set xs"
  by (simp add: first_seen_def)

lemma distinct_first_seen: "distinct (first_seen xs)"
  by (simp add: first_seen_def)

lemma length_first_seen: "length (first_seen xs) = card (set xs)"
  by (metis distinct_card distinct_first_seen set_first_seen)

lemma first_seen_Nil: "first_seen [] = []"
  by (simp add: first_seen_def)

lemma map_push_present:
  assumes "distinct ks" and "k \<in> set ks"
  shows "map_push k v (map (\<lambda>j. (j, f j)) ks)
       = map (\<lambda>j. (j, if j = k then f j @ [v] else f j)) ks"
  using assms by (induction ks) auto

lemma map_push_absent:
  assumes "k \<notin> set ks"
  shows "map_push k v (map (\<lambda>j. (j, f j)) ks) = map (\<lambda>j. (j, f j)) ks @ [(k, [v])]"
  using assms by (induction ks) auto

lemma grouping_fold:
  "foldl (\<lambda>m x. if P x then map_push (kf x) (vf x) m else m) [] xs
   = map (\<lambda>k. (k, map vf (filter (\<lambda>x. P x \<and> kf x = k) xs)))
       (first_seen (map kf (filter P xs)))"
proof (induction xs rule: rev_induct)
  case Nil
  then show ?case by (simp add: first_seen_Nil)
next
  case (snoc x xs)
  let ?ks = "first_seen (map kf (filter P xs))"
  let ?F = "\<lambda>ys k. map vf (filter (\<lambda>x. P x \<and> kf x = k) ys)"
  show ?case
  proof (cases "P x")
    case False
    then show ?thesis using snoc.IH by simp
  next
    case px: True
    show ?thesis
    proof (cases "kf x \<in> set ?ks")
      case True
      have "map_push (kf x) (vf x) (map (\<lambda>k. (k, ?F xs k)) ?ks)
          = map (\<lambda>k. (k, if k = kf x then ?F xs k @ [vf x] else ?F xs k)) ?ks"
        by (rule map_push_present[OF distinct_first_seen True])
      also have "\<dots> = map (\<lambda>k. (k, ?F (xs @ [x]) k)) ?ks"
        using px by auto
      finally show ?thesis
        using px True snoc.IH by (simp add: first_seen_snoc set_first_seen)
    next
      case False
      then have "\<forall>y \<in> set xs. \<not> (P y \<and> kf y = kf x)"
      proof (intro ballI notI)
        fix y assume y: "y \<in> set xs" and py: "P y \<and> kf y = kf x"
        from y py have "y \<in> set (filter P xs)" by simp
        then have "kf y \<in> kf ` set (filter P xs)" by (rule imageI)
        then have "kf x \<in> set (map kf (filter P xs))" using py by simp
        then show False using False by (simp add: set_first_seen)
      qed
      then have none: "?F xs (kf x) = []"
        by (simp add: filter_empty_conv)
      have same: "map (\<lambda>k. (k, ?F (xs @ [x]) k)) ?ks = map (\<lambda>k. (k, ?F xs k)) ?ks"
        using False by auto
      have "map_push (kf x) (vf x) (map (\<lambda>k. (k, ?F xs k)) ?ks)
          = map (\<lambda>k. (k, ?F xs k)) ?ks @ [(kf x, [vf x])]"
        by (rule map_push_absent[OF False])
      then show ?thesis
        using px False snoc.IH none same by (simp add: first_seen_snoc set_first_seen)
    qed
  qed
qed

lemma group_rows_eq:
  "group_rows g data
   = map (\<lambda>k. (k, filter (\<lambda>row. groupValue g row = k) data))
       (first_seen (map (groupValue g) data))"
  using grouping_fold[of "\<lambda>_. True" "groupValue g" "\<lambda>row. row" data]
  by (simp add: group_rows_def)

lemma group_y_eq:
  "group_y ns pf data xAxis yAxis
   = map (\<lambda>k. (k, map (\<lambda>row. parseFloat pf (get row yAxis))
                  (filter (\<lambda>row. \<not> isNaN (parseFloat pf (get row yAxis)) \<and> xValue ns xAxis row = k)
                     data)))
       (first_seen (map (xValue ns xAxis)
          (filter (\<lambda>row. \<not> isNaN (parseFloat pf (get row yAxis))) data)))"
  using grouping_fold[of "\<lambda>row. \<not> isNaN (parseFloat pf (get row yAxis))" "xValue ns xAxis"
      "\<lambda>row. parseFloat pf (get row yAxis)" data]
  by (simp add: group_y_def Let_def)

lemma falsy_cases:
  "\<not> truthy v \<longleftrightarrow> v \<in> {JUndef, JNull, JBool False, JNum (Fin 0), JNum NaN, JStr []}"
  by (cases v) (auto elim: isNaN.elims)

lemma match_group_by_nonempty: "match_group_by s = Some w \<Longrightarrow> w \<noteq> []"
  by (auto simp add: match_group_by_def Let_def split: option.splits if_splits)

lemma extractGroupByColumn_nonempty: "extractGroupByColumn q = Some w \<Longrightarrow> w \<noteq> []"
  by (induction q) (auto split: option.splits dest: match_group_by_nonempty)

lemma executeGroupByQuery_rows:
  assumes "extractGroupByColumn query = Some g" and "g \<in> set columns"
  shows "executeGroupByQuery query data columns
       = \<lparr>rows = map (group_result_row g) (group_rows g data), queryType = GROUP_BY\<rparr>"
  using assms extractGroupByColumn_nonempty[OF assms(1)]
  by (simp add: executeGroupByQuery_def)

section \<open>Values and result rows\<close>

lemma is_number_iff: "is_number v \<longleftrightarrow> (\<exists>n. v = JNum n \<and> n \<noteq> NaN)"
  by (cases v) (auto elim: isNaN.elims)

lemma map_of_set_field: "map_of (set_field k v r) = (map_of r)(k \<mapsto> v)"
  by (induction r) auto

lemma get_set_field: "get (set_field k v r) j = (if j = k then v else get r j)"
  by (simp add: get_def map_of_set_field)

lemma fst_hd_set_field: "r \<noteq> [] \<Longrightarrow> fst (hd (set_field k v r)) = fst (hd r)"
  by (cases r) auto

lemma set_field_nonempty: "set_field k v r \<noteq> []"
  by (cases r) (auto split: if_splits)

lemma map_of_aggregate_column:
  "map_of (aggregate_column data r col) =
     (if numeric_values data col = [] then map_of r
      else (map_of r)
        (''count_'' @ col \<mapsto> JNum (js_of_nat (length (numeric_values data col))),
         ''sum_'' @ col \<mapsto> JNum (sum_reduce (numeric_values data col)),
         ''avg_'' @ col \<mapsto> JNum (js_div (sum_reduce (numeric_values data col))
                                   (js_of_nat (length (numeric_values data col)))),
         ''min_'' @ col \<mapsto> JNum (Math_min (numeric_values data col)),
         ''max_'' @ col \<mapsto> JNum (Math_max (numeric_values data col))))"
  by (simp add: aggregate_column_def Let_def map_of_set_field)

lemma aggregate_keys_disjoint: "c \<noteq> col \<Longrightarrow> k \<in> aggregate_keys c \<Longrightarrow> k \<notin> aggregate_keys col"
  by (auto simp add: aggregate_keys_def)

lemma aggregate_column_other:
  "k \<notin> aggregate_keys c \<Longrightarrow> map_of (aggregate_column data r c) k = map_of r k"
  by (simp add: map_of_aggregate_column aggregate_keys_def)

lemma aggregate_fold_other:
  "\<forall>c \<in> set cols. k \<notin> aggregate_keys c \<Longrightarrow>
   map_of (foldl (aggregate_column data) r cols) k = map_of r k"
  by (induction cols arbitrary: r) (simp_all add: aggregate_column_other)

lemma aggregate_fold_fields:
  assumes "col \<in> set cols" and "numeric_values data col \<noteq> []"
      and "k \<in> aggregate_keys col"
  shows "map_of (foldl (aggregate_column data) r cols) k = map_of (aggregate_column data [] col) k"
  using assms(1)
proof (induction cols arbitrary: r rule: rev_induct)
  case Nil
  then show ?case by simp
next
  case (snoc c cs)
  show ?case
  proof (cases "c = col")
    case True
    then show ?thesis
      using assms(2,3) by (auto simp add: map_of_aggregate_column aggregate_keys_def)
  next
    case False
    then have "col \<in> set cs" using snoc.prems by simp
    moreover have "k \<notin> aggregate_keys c"
      using False assms(3) aggregate_keys_disjoint by blast
    ultimately show ?thesis
      using snoc.IH by (simp add: aggregate_column_other)
  qed
qed

lemma aggregate_fold_keys:
  "map_of (foldl (aggregate_column data) r cols) k = Some v \<Longrightarrow>
   map_of r k = Some v
   \<or> (\<exists>c \<in> set cols. numeric_values data c \<noteq> [] \<and> k \<in> aggregate_keys c)"
proof (induction cols arbitrary: r v rule: rev_induct)
  case Nil
  then show ?case by simp
next
  case (snoc c cs)
  show ?case
  proof (cases "numeric_values data c \<noteq> [] \<and> k \<in> aggregate_keys c")
    case True
    then show ?thesis by auto
  next
    case False
    then have "map_of (aggregate_column data (foldl (aggregate_column data) r cs) c) k
        = map_of (foldl (aggregate_column data) r cs) k"
      by (auto simp add: map_of_aggregate_column aggregate_keys_def)
    then have "map_of (foldl (aggregate_column data) r cs) k = Some v"
      using snoc.prems by simp
    then show ?thesis using snoc.IH by fastforce
  qed
qed

lemma numeric_column_has_values:
  assumes "col \<in> set (getNumericColumns data)"
  shows "numeric_values data col \<noteq> []"
proof -
  obtain row where "row \<in> set (take 10 data)" and "is_number (get row col)"
    using assms by (cases data) (auto simp add: getNumericColumns_def list_ex_iff)
  then have "row \<in> set data" by (meson in_set_takeD)
  then show ?thesis
    using \<open>is_number (get row col)\<close>
    by (auto simp add: numeric_values_def filter_empty_conv)
qed

lemma length_numeric_values:
  "length (numeric_values data col)
     = length (filter (\<lambda>row. \<exists>n. get row col = JNum n \<and> n \<noteq> NaN) data)"
  by (simp add: numeric_values_def filter_map comp_def is_number_iff)

lemma map_of_group_column:
  "map_of (group_column groupData r col) =
     (if numeric_values groupData col = [] then map_of r
      else (map_of r)
        (''count_'' @ col \<mapsto> JNum (js_of_nat (length (numeric_values groupData col))),
         ''sum_'' @ col \<mapsto> JNum (sum_reduce (numeric_values groupData col)),
         ''avg_'' @ col \<mapsto> JNum (js_div (sum_reduce (numeric_values groupData col))
                                   (js_of_nat (length (numeric_values groupData col))))))"
  by (simp add: group_column_def Let_def map_of_set_field)

lemma group_keys_disjoint: "c \<noteq> col \<Longrightarrow> k \<in> group_keys c \<Longrightarrow> k \<notin> group_keys col"
  by (auto simp add: group_keys_def)

lemma group_column_other:
  "k \<notin> group_keys c \<Longrightarrow> map_of (group_column groupData r c) k = map_of r k"
  by (simp add: map_of_group_column group_keys_def)

lemma group_fold_other:
  "\<forall>c \<in> set cols. k \<notin> group_keys c \<Longrightarrow>
   map_of (foldl (group_column groupData) r cols) k = map_of r k"
  by (induction cols arbitrary: r) (simp_all add: group_column_other)

lemma group_fold_fields:
  assumes "col \<in> set cols" and "numeric_values groupData col \<noteq> []"
      and "k \<in> group_keys col"
  shows "map_of (foldl (group_column groupData) r cols) k
       = map_of (group_column groupData [] col) k"
  using assms(1)
proof (induction cols arbitrary: r rule: rev_induct)
  case Nil
  then show ?case by simp
next
  case (snoc c cs)
  show ?case
  proof (cases "c = col")
    case True
    then show ?thesis
      using assms(2,3) by (auto simp add: map_of_group_column group_keys_def)
  next
    case False
    then have "col \<in> set cs" using snoc.prems by simp
    moreover have "k \<notin> group_keys c"
      using False assms(3) group_keys_disjoint by blast
    ultimately show ?thesis
      using snoc.IH by (simp add: group_column_other)
  qed
qed

lemma group_fold_keys:
  "map_of (foldl (group_column groupData) r cols) k = Some v \<Longrightarrow>
   map_of r k = Some v
   \<or> (\<exists>c \<in> set cols. numeric_values groupData c \<noteq> [] \<and> k \<in> group_keys c)"
proof (induction cols arbitrary: r v rule: rev_induct)
  case Nil
  then show ?case by simp
next
  case (snoc c cs)
  show ?case
  proof (cases "numeric_values groupData c \<noteq> [] \<and> k \<in> group_keys c")
    case True
    then show ?thesis by auto
  next
    case False
    then have "map_of (group_column groupData (foldl (group_column groupData) r cs) c) k
        = map_of (foldl (group_column groupData) r cs) k"
      by (auto simp add: map_of_group_column group_keys_def)
    then have "map_of (foldl (group_column groupData) r cs) k = Some v"
      using snoc.prems by simp
    then show ?thesis using snoc.IH by fastforce
  qed
qed

lemma group_result_row_fields:
  assumes "col \<in> set (getNumericColumns groupData)"
  shows "numeric_values groupData col \<noteq> []"
    and "get (group_result_row g (k, groupData)) (''count_'' @ col)
           = JNum (js_of_nat (length (numeric_values groupData col)))"
    and "get (group_result_row g (k, groupData)) (''sum_'' @ col)
           = JNum (sum_reduce (numeric_values groupData col))"
    and "get (group_result_row g (k, groupData)) (''avg_'' @ col)
           = JNum (js_div (sum_reduce (numeric_values groupData col))
                     (js_of_nat (length (numeric_values groupData col))))"
proof -
  show ne: "numeric_values groupData col \<noteq> []"
    by (rule numeric_column_has_values[OF assms])
  have f: "\<And>key. key \<in> group_keys col \<Longrightarrow>
      map_of (group_result_row g (k, groupData)) key
        = map_of (group_column groupData [] col) key"
    unfolding group_result_row_def by (simp add: group_fold_fields[OF assms ne])
  show "get (group_result_row g (k, groupData)) (''count_'' @ col)
           = JNum (js_of_nat (length (numeric_values groupData col)))"
    using f[of "''count_'' @ col"] ne by (simp add: get_def group_keys_def map_of_group_column)
  show "get (group_result_row g (k, groupData)) (''sum_'' @ col)
           = JNum (sum_reduce (numeric_values groupData col))"
    using f[of "''sum_'' @ col"] ne by (simp add: get_def group_keys_def map_of_group_column)
  show "get (group_result_row g (k, groupData)) (''avg_'' @ col)
           = JNum (js_div (sum_reduce (numeric_values groupData col))
                     (js_of_nat (length (numeric_values groupData col))))"
    using f[of "''avg_'' @ col"] ne by (simp add: get_def group_keys_def map_of_group_column)
qed

lemma group_result_row_key:
  assumes "\<forall>col \<in> set (getNumericColumns groupData). g \<notin> group_keys col"
  shows "get (group_result_row g (k, groupData)) g = k"
  unfolding group_result_row_def get_def
  by (simp add: group_fold_other[OF assms])

lemma group_result_row_only:
  assumes "map_of (group_result_row g (k, groupData)) key = Some v"
  shows "key = g \<or> (\<exists>col \<in> set (getNumericColumns groupData). key \<in> group_keys col)"
  using group_fold_keys[OF assms[unfolded group_result_row_def prod.case]]
  by (auto split: if_splits)

section \<open>The order on numbers, minimum and maximum\<close>

lemma js_le_refl: "\<not> isNaN a \<Longrightarrow> js_le a a"
  by (cases a) (auto simp add: js_le_def)

lemma js_le_trans: "js_le a b \<Longrightarrow> js_le b c \<Longrightarrow> js_le a c"
  by (cases a; cases b; cases c) (auto simp add: js_le_def)

lemma js_le_total: "\<not> isNaN a \<Longrightarrow> \<not> isNaN b \<Longrightarrow> js_le a b \<or> js_le b a"
  by (cases a; cases b) (auto simp add: js_le_def)

lemma js_le_antisym: "js_le a b \<Longrightarrow> js_le b a \<Longrightarrow> a = b"
  by (cases a; cases b) (auto simp add: js_le_def)

lemma js_le_not_NaN: "js_le a b \<Longrightarrow> \<not> isNaN a \<and> \<not> isNaN b"
  by (simp add: js_le_def)

lemma Math_min2_props:
  assumes "\<not> isNaN a" and "\<not> isNaN b"
  shows "Math_min2 a b \<in> {a, b}" and "js_le (Math_min2 a b) a" and "js_le (Math_min2 a b) b"
  using assms by (cases a; cases b; auto simp add: Math_min2_def js_le_def)+

lemma Math_max2_props:
  assumes "\<not> isNaN a" and "\<not> isNaN b"
  shows "Math_max2 a b \<in> {a, b}" and "js_le a (Math_max2 a b)" and "js_le b (Math_max2 a b)"
  using assms by (cases a; cases b; auto simp add: Math_max2_def js_le_def)+

lemma foldl_min_props:
  assumes "\<not> isNaN acc" and "\<forall>v \<in> set xs. \<not> isNaN v"
  shows "foldl Math_min2 acc xs \<in> insert acc (set xs)
       \<and> js_le (foldl Math_min2 acc xs) acc
       \<and> (\<forall>v \<in> set xs. js_le (foldl Math_min2 acc xs) v)"
  using assms
proof (induction xs arbitrary: acc)
  case Nil
  then show ?case by (simp add: js_le_refl)
next
  case (Cons x xs)
  let ?m = "Math_min2 acc x"
  have nx: "\<not> isNaN x" using Cons.prems by simp
  have m: "?m \<in> {acc, x}" "js_le ?m acc" "js_le ?m x"
    using Math_min2_props[OF Cons.prems(1) nx] by auto
  then have nm: "\<not> isNaN ?m" using js_le_not_NaN by blast
  have ih: "foldl Math_min2 ?m xs \<in> insert ?m (set xs)
       \<and> js_le (foldl Math_min2 ?m xs) ?m
       \<and> (\<forall>v \<in> set xs. js_le (foldl Math_min2 ?m xs) v)"
    using Cons.IH[OF nm] Cons.prems(2) by simp
  have "foldl Math_min2 ?m xs \<in> insert acc (set (x # xs))"
    using ih m(1) by auto
  moreover have "js_le (foldl Math_min2 ?m xs) acc"
    using ih m(2) js_le_trans by blast
  moreover have "js_le (foldl Math_min2 ?m xs) x"
    using ih m(3) js_le_trans by blast
  ultimately show ?case using ih by simp
qed

lemma foldl_max_props:
  assumes "\<not> isNaN acc" and "\<forall>v \<in> set xs. \<not> isNaN v"
  shows "foldl Math_max2 acc xs \<in> insert acc (set xs)
       \<and> js_le acc (foldl Math_max2 acc xs)
       \<and> (\<forall>v \<in> set xs. js_le v (foldl Math_max2 acc xs))"
  using assms
proof (induction xs arbitrary: acc)
  case Nil
  then show ?case by (simp add: js_le_refl)
next
  case (Cons x xs)
  let ?m = "Math_max2 acc x"
  have nx: "\<not> isNaN x" using Cons.prems by simp
  have m: "?m \<in> {acc, x}" "js_le acc ?m" "js_le x ?m"
    using Math_max2_props[OF Cons.prems(1) nx] by auto
  then have nm: "\<not> isNaN ?m" using js_le_not_NaN by blast
  have ih: "foldl Math_max2 ?m xs \<in> insert ?m (set xs)
       \<and> js_le ?m (foldl Math_max2 ?m xs)
       \<and> (\<forall>v \<in> set xs. js_le v (foldl Math_max2 ?m xs))"
    using Cons.IH[OF nm] Cons.prems(2) by simp
  have "foldl Math_max2 ?m xs \<in> insert acc (set (x # xs))"
    using ih m(1) by auto
  moreover have "js_le acc (foldl Math_max2 ?m xs)"
    using ih m(2) js_le_trans by blast
  moreover have "js_le x (foldl Math_max2 ?m xs)"
    using ih m(3) js_le_trans by blast
  ultimately show ?case using ih by simp
qed

lemma js_le_PosInf: "js_le PosInf v \<Longrightarrow> v = PosInf"
  by (cases v) (auto simp add: js_le_def)

lemma js_le_NegInf: "js_le v NegInf \<Longrightarrow> v = NegInf"
  by (cases v) (auto simp add: js_le_def)

lemma Math_min_least:
  assumes "xs \<noteq> []" and "\<forall>v \<in> set xs. \<not> isNaN v"
  shows "Math_min xs \<in> set xs" and "\<forall>v \<in> set xs. js_le (Math_min xs) v"
proof -
  have p: "Math_min xs \<in> insert PosInf (set xs) \<and> (\<forall>v \<in> set xs. js_le (Math_min xs) v)"
    using foldl_min_props[of PosInf xs] assms(2) by (simp add: Math_min_def)
  then show "\<forall>v \<in> set xs. js_le (Math_min xs) v" by simp
  obtain x where x: "x \<in> set xs" using assms(1) by (cases xs) auto
  show "Math_min xs \<in> set xs"
  proof (cases "Math_min xs = PosInf")
    case True
    then have "x = PosInf" using p x js_le_PosInf by metis
    then show ?thesis using True x by simp
  next
    case False
    then show ?thesis using p by auto
  qed
qed

lemma Math_max_greatest:
  assumes "xs \<noteq> []" and "\<forall>v \<in> set xs. \<not> isNaN v"
  shows "Math_max xs \<in> set xs" and "\<forall>v \<in> set xs. js_le v (Math_max xs)"
proof -
  have p: "Math_max xs \<in> insert NegInf (set xs) \<and> (\<forall>v \<in> set xs. js_le v (Math_max xs))"
    using foldl_max_props[of NegInf xs] assms(2) by (simp add: Math_max_def)
  then show "\<forall>v \<in> set xs. js_le v (Math_max xs)" by simp
  obtain x where x: "x \<in> set xs" using assms(1) by (cases xs) auto
  show "Math_max xs \<in> set xs"
  proof (cases "Math_max xs = NegInf")
    case True
    then have "x = NegInf" using p x js_le_NegInf by metis
    then show ?thesis using True x by simp
  next
    case False
    then show ?thesis using p by auto
  qed
qed

lemma numeric_values_not_NaN: "\<forall>v \<in> set (numeric_values data col). \<not> isNaN v"
proof
  fix v assume "v \<in> set (numeric_values data col)"
  then obtain w where "is_number w" and "v = the_number w"
    by (auto simp add: numeric_values_def)
  then show "\<not> isNaN v" by (cases w) auto
qed

section \<open>Sorting and quantile indices\<close>

lemma sort_comparator:
  "\<not> isNaN a \<Longrightarrow> \<not> isNaN b \<Longrightarrow> js_gt (js_sub b a) (Fin 0) = js_lt a b"
  by (cases a; cases b) (auto simp add: js_gt_def js_sub_def)

lemma js_lt_le: "\<not> isNaN a \<Longrightarrow> \<not> isNaN b \<Longrightarrow> js_lt a b \<Longrightarrow> js_le a b"
  by (cases a; cases b) (auto simp add: js_le_def)

lemma not_js_lt_le: "\<not> isNaN a \<Longrightarrow> \<not> isNaN b \<Longrightarrow> \<not> js_lt a b \<Longrightarrow> js_le b a"
  by (simp add: js_le_def)

lemma mset_insert_sorted: "mset (insert_sorted a bs) = add_mset a (mset bs)"
  by (induction bs) auto

lemma set_insert_sorted: "set (insert_sorted a bs) = insert a (set bs)"
  by (induction bs) auto

lemma sorted_insert_sorted:
  assumes "\<not> isNaN a" and "\<forall>b \<in> set bs. \<not> isNaN b" and "sorted_wrt js_le bs"
  shows "sorted_wrt js_le (insert_sorted a bs)"
  using assms(2,3)
proof (induction bs)
  case Nil
  then show ?case by simp
next
  case (Cons b bs)
  have nb: "\<not> isNaN b" using Cons.prems(1) by simp
  show ?case
  proof (cases "js_lt a b")
    case True
    then have ab: "js_le a b" using js_lt_le[OF assms(1) nb] by simp
    then have "\<forall>x \<in> set bs. js_le a x"
      using Cons.prems(2) js_le_trans by auto
    then show ?thesis
      using True ab Cons.prems(2) nb by (simp add: sort_comparator[OF assms(1)])
  next
    case False
    then have ba: "js_le b a" using not_js_lt_le[OF assms(1) nb] by simp
    have "sorted_wrt js_le (insert_sorted a bs)"
      using Cons by simp
    then show ?thesis
      using False ba Cons.prems(2) nb
      by (simp add: sort_comparator[OF assms(1)] set_insert_sorted)
  qed
qed

lemma foldl_insert_sorted:
  assumes "\<forall>x \<in> set xs. \<not> isNaN x" and "\<forall>x \<in> set acc. \<not> isNaN x" and "sorted_wrt js_le acc"
  shows "sorted_wrt js_le (foldl (\<lambda>sorted a. insert_sorted a sorted) acc xs)
       \<and> mset (foldl (\<lambda>sorted a. insert_sorted a sorted) acc xs) = mset acc + mset xs"
  using assms
proof (induction xs arbitrary: acc)
  case Nil
  then show ?case by simp
next
  case (Cons x xs)
  have "sorted_wrt js_le (insert_sorted x acc)"
    using Cons.prems by (simp add: sorted_insert_sorted)
  moreover have "\<forall>y \<in> set (insert_sorted x acc). \<not> isNaN y"
    using Cons.prems by (simp add: set_insert_sorted)
  ultimately show ?case
    using Cons.IH[of "insert_sorted x acc"] Cons.prems(1)
    by (simp add: mset_insert_sorted)
qed

lemma sort_ascending_sorted:
  "\<forall>x \<in> set xs. \<not> isNaN x \<Longrightarrow> sorted_wrt js_le (sort_ascending xs)"
  using foldl_insert_sorted[of xs "[]"] by (simp add: sort_ascending_def)

lemma mset_sort_ascending:
  "\<forall>x \<in> set xs. \<not> isNaN x \<Longrightarrow> mset (sort_ascending xs) = mset xs"
  using foldl_insert_sorted[of xs "[]"] by (simp add: sort_ascending_def)

lemma length_sort_ascending:
  "\<forall>x \<in> set xs. \<not> isNaN x \<Longrightarrow> length (sort_ascending xs) = length xs"
  using mset_sort_ascending[of xs] by (metis size_mset)

lemma quantile_index_quarter: "quantile_index n (1 / 4) = n div 4"
proof -
  have "(of_nat n * (1 / 4) :: rat) = of_nat n / of_nat 4" by simp
  then have "\<lfloor>of_nat n * (1 / 4) :: rat\<rfloor> = int (n div 4)"
    by (simp only: floor_divide_of_nat_eq)
  then show ?thesis by (simp add: quantile_index_def)
qed

lemma quantile_index_half: "quantile_index n (1 / 2) = n div 2"
proof -
  have "(of_nat n * (1 / 2) :: rat) = of_nat n / of_nat 2" by simp
  then have "\<lfloor>of_nat n * (1 / 2) :: rat\<rfloor> = int (n div 2)"
    by (simp only: floor_divide_of_nat_eq)
  then show ?thesis by (simp add: quantile_index_def)
qed

lemma quantile_index_three_quarters: "quantile_index n (3 / 4) = 3 * n div 4"
proof -
  have "(of_nat n * (3 / 4) :: rat) = of_nat (3 * n) / of_nat 4" by simp
  then have "\<lfloor>of_nat n * (3 / 4) :: rat\<rfloor> = int (3 * n div 4)"
    by (simp only: floor_divide_of_nat_eq)
  then show ?thesis by (simp add: quantile_index_def)
qed

lemma sorted_wrt_nth_le:
  assumes "sorted_wrt js_le xs" and "\<forall>x \<in> set xs. \<not> isNaN x" and "i \<le> j" and "j < length xs"
  shows "js_le (xs ! i) (xs ! j)"
proof (cases "i = j")
  case True
  then show ?thesis using assms(2,4) by (simp add: js_le_refl)
next
  case False
  then have "i < j" using assms(3) by simp
  then show ?thesis using assms(1,4) by (simp add: sorted_wrt_nth_less)
qed

lemma quantile_index_bounds:
  fixes n :: nat
  assumes "0 < n"
  shows "n div 4 < n" and "n div 2 < n" and "3 * n div 4 < n" and "n - 1 < n"
    and "n div 4 \<le> n div 2" and "n div 2 \<le> 3 * n div 4" and "3 * n div 4 \<le> n - 1"
  using assms by presburger+

lemma group_values_not_NaN: "\<forall>v \<in> set (group_values ns pf data xAxis yAxis k). \<not> isNaN v"
  by (auto simp add: group_values_def)

lemma processBoxData_eq:
  "processBoxData ns pf data xAxis yAxis
   = map (\<lambda>k. box_of_group (k, group_values ns pf data xAxis yAxis k))
       (first_seen (map (xValue ns xAxis)
          (filter (\<lambda>row. \<not> isNaN (parseFloat pf (get row yAxis))) data)))"
  by (simp add: processBoxData_def group_y_eq group_values_def comp_def)

lemma box_x_box_of_group: "box_x (box_of_group (k, ys)) = k"
  by (simp add: box_of_group_def Let_def)

lemma box_of_group_fields:
  assumes "ys \<noteq> []" and "\<forall>v \<in> set ys. \<not> isNaN v"
  shows "box_min (box_of_group (k, ys)) = Some (sort_ascending ys ! 0)"
    and "box_q1 (box_of_group (k, ys)) = Some (sort_ascending ys ! (length ys div 4))"
    and "box_median (box_of_group (k, ys)) = Some (sort_ascending ys ! (length ys div 2))"
    and "box_q3 (box_of_group (k, ys)) = Some (sort_ascending ys ! (3 * length ys div 4))"
    and "box_max (box_of_group (k, ys)) = Some (sort_ascending ys ! (length ys - 1))"
proof -
  have l: "length (sort_ascending ys) = length ys"
    by (rule length_sort_ascending[OF assms(2)])
  have n: "0 < length ys" using assms(1) by simp
  have sne: "sort_ascending ys \<noteq> []"
    using l n by (metis length_greater_0_conv)
  note i = quantile_index_bounds(1-4)[OF n]
  show "box_min (box_of_group (k, ys)) = Some (sort_ascending ys ! 0)"
    using sne by (simp add: box_of_group_def Let_def at_index_def)
  show "box_q1 (box_of_group (k, ys)) = Some (sort_ascending ys ! (length ys div 4))"
    using i(1) by (simp add: box_of_group_def Let_def at_index_def l quantile_index_quarter)
  show "box_median (box_of_group (k, ys)) = Some (sort_ascending ys ! (length ys div 2))"
    using i(2) by (simp add: box_of_group_def Let_def at_index_def l quantile_index_half)
  show "box_q3 (box_of_group (k, ys)) = Some (sort_ascending ys ! (3 * length ys div 4))"
    using i(3)
    by (simp add: box_of_group_def Let_def at_index_def l quantile_index_three_quarters)
  show "box_max (box_of_group (k, ys)) = Some (sort_ascending ys ! (length ys - 1))"
    using sne i(4) by (simp add: box_of_group_def Let_def at_index_def l)
qed

lemma quantiles_ordered:
  assumes "ys \<noteq> []" and "\<forall>v \<in> set ys. \<not> isNaN v"
  shows "js_le (sort_ascending ys ! 0) (sort_ascending ys ! (length ys div 4))"
    and "js_le (sort_ascending ys ! (length ys div 4)) (sort_ascending ys ! (length ys div 2))"
    and "js_le (sort_ascending ys ! (length ys div 2)) (sort_ascending ys ! (3 * length ys div 4))"
    and "js_le (sort_ascending ys ! (3 * length ys div 4)) (sort_ascending ys ! (length ys - 1))"
proof -
  let ?s = "sort_ascending ys"
  have l: "length ?s = length ys"
    by (rule length_sort_ascending[OF assms(2)])
  have s: "sorted_wrt js_le ?s"
    by (rule sort_ascending_sorted[OF assms(2)])
  have "set ?s = set ys"
    using mset_sort_ascending[OF assms(2)] by (metis set_mset_mset)
  then have nn: "\<forall>x \<in> set ?s. \<not> isNaN x" using assms(2) by simp
  have n: "0 < length ys" using assms(1) by simp
  note b = quantile_index_bounds[OF n]
  show "js_le (?s ! 0) (?s ! (length ys div 4))"
    using b(1) by (intro sorted_wrt_nth_le[OF s nn]) (simp_all add: l)
  show "js_le (?s ! (length ys div 4)) (?s ! (length ys div 2))"
    using b(2,5) by (intro sorted_wrt_nth_le[OF s nn]) (simp_all add: l)
  show "js_le (?s ! (length ys div 2)) (?s ! (3 * length ys div 4))"
    using b(3,6) by (intro sorted_wrt_nth_le[OF s nn]) (simp_all add: l)
  show "js_le (?s ! (3 * length ys div 4)) (?s ! (length ys - 1))"
    using b(4,7) by (intro sorted_wrt_nth_le[OF s nn]) (simp_all add: l)
qed

section \<open>Histogram bins\<close>

text \<open>\<open>ceil_sqrt n\<close> is the least \<open>k\<close> whose square reaches \<open>n\<close>.\<close>

lemma ceil_sqrt_least:
  "n \<le> ceil_sqrt n * ceil_sqrt n \<and> (\<forall>k. n \<le> k * k \<longrightarrow> ceil_sqrt n \<le> k)"
proof
  let ?P = "\<lambda>k. k * k < n"
  let ?m = "length (takeWhile ?P [0..<n])"
  have le: "?m \<le> n" using length_takeWhile_le[of ?P "[0..<n]"] by simp
  show "n \<le> ceil_sqrt n * ceil_sqrt n"
  proof (cases "?m < n")
    case True
    then have "\<not> ?P ([0..<n] ! ?m)"
      using nth_length_takeWhile[of ?P "[0..<n]"] by simp
    then have "\<not> ?P ?m" using True by simp
    then show ?thesis by (simp add: ceil_sqrt_def)
  next
    case False
    then have "?m = n" using le by simp
    then show ?thesis by (simp add: ceil_sqrt_def)
  qed
  show "\<forall>k. n \<le> k * k \<longrightarrow> ceil_sqrt n \<le> k"
  proof (intro allI impI)
    fix k assume k: "n \<le> k * k"
    show "ceil_sqrt n \<le> k"
    proof (rule ccontr)
      assume "\<not> ceil_sqrt n \<le> k"
      then have km: "k < ?m" by (simp add: ceil_sqrt_def)
      then have "takeWhile ?P [0..<n] ! k \<in> set (takeWhile ?P [0..<n])"
        by (rule nth_mem)
      then have "?P (takeWhile ?P [0..<n] ! k)"
        by (rule set_takeWhileD[THEN conjunct2])
      moreover have "takeWhile ?P [0..<n] ! k = [0..<n] ! k"
        using km by (rule takeWhile_nth)
      moreover have "k < n" using km le by simp
      ultimately have "?P k" by simp
      then show False using k by simp
    qed
  qed
qed

lemma ceil_sqrt_pos: "0 < n \<Longrightarrow> 0 < ceil_sqrt n"
  by (simp add: ceil_sqrt_def upt_conv_Cons)

lemma length_increment_bin: "length (increment_bin bins i) = length bins"
  by (cases i) (simp_all add: increment_bin_def)

lemma increment_bin_NaN: "increment_bin bins NaN = bins"
  by (simp add: increment_bin_def)

lemma sum_list_increment_bin:
  assumes "k < length bins"
  shows "sum_list (increment_bin bins (Fin (of_nat k))) = Suc (sum_list bins)"
proof -
  have "sum_list (bins[k := Suc (bins ! k)]) = Suc (sum_list bins)"
    using assms by (simp add: sum_list_update)
  then show ?thesis using assms by (simp add: increment_bin_def)
qed

text \<open>All values equal: the bin width is zero and every index is NaN.\<close>

lemma fill_bins_zero_width:
  assumes "\<forall>v \<in> set vals. v = Fin c"
  shows "fill_bins vals (Fin c) binCount (Fin 0) = replicate binCount 0"
proof -
  have "foldl (\<lambda>bins val.
        increment_bin bins
          (Math_min2 (Math_floor (js_div (js_sub val (Fin c)) (Fin 0)))
             (js_sub (js_of_nat binCount) (Fin 1)))) acc vals = acc" for acc
    using assms
    by (induction vals arbitrary: acc)
       (simp_all add: js_sub_def Math_min2_def increment_bin_NaN)
  then show ?thesis by (simp add: fill_bins_def)
qed

lemma Math_min_constant:
  assumes "vals \<noteq> []" and "\<forall>v \<in> set vals. v = Fin c"
  shows "Math_min vals = Fin c" and "Math_max vals = Fin c"
proof -
  have nn: "\<forall>v \<in> set vals. \<not> isNaN v" using assms(2) by auto
  show "Math_min vals = Fin c"
    using Math_min_least(1)[OF assms(1) nn] assms(2) by blast
  show "Math_max vals = Fin c"
    using Math_max_greatest(1)[OF assms(1) nn] assms(2) by blast
qed

lemma equal_values_fill_no_bin:
  assumes "histogram_values pf data xAxis \<noteq> []"
      and "\<forall>v \<in> set (histogram_values pf data xAxis). v = Fin c"
  shows "map hist_y (processHistogramData pf data xAxis)
       = replicate (min 10 (ceil_sqrt (length (histogram_values pf data xAxis)))) 0"
proof -
  let ?vals = "histogram_values pf data xAxis"
  let ?b = "min 10 (ceil_sqrt (length ?vals))"
  have b: "0 < ?b" using assms(1) by (simp add: ceil_sqrt_pos)
  have w: "js_div (js_sub (Fin c) (Fin c)) (js_of_nat ?b) = Fin 0"
    using b by (simp add: js_sub_def js_of_nat_def)
  have "processHistogramData pf data xAxis
      = map (\<lambda>(count, index).
              \<lparr>hist_x = js_add (Fin c) (js_mul (js_add (js_of_nat index) (Fin (1 / 2))) (Fin 0)),
               hist_y = count\<rparr>)
          (zip (replicate ?b 0) [0..<?b])"
    using assms(1)
    by (simp add: processHistogramData_def Let_def Math_min_constant[OF assms] w
        fill_bins_zero_width[OF assms(2)])
  then have "map hist_y (processHistogramData pf data xAxis)
      = map fst (zip (replicate ?b 0) [0..<?b])"
    by (simp add: comp_def case_prod_unfold)
  then show ?thesis by (simp add: map_fst_zip)
qed

text \<open>
  Values that are finite and not all equal: the bin width is positive, every index is
  one of the array's, and the counts add up to the number of values.
\<close>

lemma bin_index_in_range:
  assumes "0 < b" and "0 < w" and "m \<le> v"
  shows "\<exists>k < b. Math_min2 (Math_floor (js_div (js_sub (Fin v) (Fin m)) (Fin w)))
                   (js_sub (js_of_nat b) (Fin 1)) = Fin (of_nat k)"
proof -
  let ?f = "\<lfloor>(v - m) / w\<rfloor>"
  have f0: "0 \<le> ?f" using assms(2,3) by simp
  have idx: "Math_floor (js_div (js_sub (Fin v) (Fin m)) (Fin w)) = Fin (of_int ?f)"
    using assms(2) by (simp add: js_sub_def)
  have top: "js_sub (js_of_nat b) (Fin 1) = Fin (of_nat (b - 1))"
    using assms(1) by (simp add: js_sub_def js_of_nat_def of_nat_diff)
  show ?thesis
  proof (cases "int (b - 1) < ?f")
    case True
    then have "(of_nat (b - 1) :: rat) < of_int ?f"
      by (metis of_int_less_iff of_int_of_nat_eq)
    then have "Math_min2 (Fin (of_int ?f)) (Fin (of_nat (b - 1))) = Fin (of_nat (b - 1))"
      by (simp add: Math_min2_def)
    then show ?thesis using idx top assms(1)
      by (metis diff_less zero_less_one)
  next
    case False
    then have le: "?f \<le> int (b - 1)" by simp
    then have "\<not> (of_nat (b - 1) :: rat) < of_int ?f"
      by (metis of_int_less_iff of_int_of_nat_eq not_less)
    then have "Math_min2 (Fin (of_int ?f)) (Fin (of_nat (b - 1))) = Fin (of_int ?f)"
      by (simp add: Math_min2_def)
    moreover have "(of_int ?f :: rat) = of_nat (nat ?f)" using f0 by simp
    moreover have "nat ?f < b" using le f0 assms(1) by linarith
    ultimately show ?thesis using idx top by metis
  qed
qed

lemma bin_size_finite:
  "0 < b \<Longrightarrow> js_div (js_sub (Fin M) (Fin m)) (js_of_nat b) = Fin ((M - m) / of_nat b)"
  by (simp add: js_sub_def js_of_nat_def)

lemma fill_fold_sum:
  assumes "\<forall>v \<in> set vals. \<exists>k < length acc. idx v = Fin (of_nat k)"
  shows "sum_list (foldl (\<lambda>bins val. increment_bin bins (idx val)) acc vals)
           = sum_list acc + length vals
       \<and> length (foldl (\<lambda>bins val. increment_bin bins (idx val)) acc vals) = length acc"
  using assms
proof (induction vals arbitrary: acc)
  case Nil
  then show ?case by simp
next
  case (Cons v vs)
  obtain k where k: "k < length acc" "idx v = Fin (of_nat k)"
    using Cons.prems by auto
  let ?acc = "increment_bin acc (idx v)"
  have l: "length ?acc = length acc" by (rule length_increment_bin)
  have s: "sum_list ?acc = Suc (sum_list acc)"
    using k sum_list_increment_bin by simp
  have "\<forall>u \<in> set vs. \<exists>k < length ?acc. idx u = Fin (of_nat k)"
    using Cons.prems l by simp
  then show ?case using Cons.IH[of ?acc] l s by simp
qed

lemma histogram_counts_sum:
  assumes fin: "\<forall>v \<in> set (histogram_values pf data xAxis). isFinite v"
      and spread: "Math_min (histogram_values pf data xAxis)
                     \<noteq> Math_max (histogram_values pf data xAxis)"
  shows "sum_list (map hist_y (processHistogramData pf data xAxis))
           = length (histogram_values pf data xAxis)
       \<and> length (processHistogramData pf data xAxis)
           = (if histogram_values pf data xAxis = [] then 0
              else min 10 (ceil_sqrt (length (histogram_values pf data xAxis))))"
proof (cases "histogram_values pf data xAxis = []")
  case True
  then show ?thesis by (simp add: processHistogramData_def)
next
  case ne: False
  let ?vals = "histogram_values pf data xAxis"
  let ?b = "min 10 (ceil_sqrt (length ?vals))"
  have nn: "\<forall>v \<in> set ?vals. \<not> isNaN v"
    by (auto simp add: histogram_values_def)
  have b: "0 < ?b" using ne by (simp add: ceil_sqrt_pos)
  obtain m where m: "Math_min ?vals = Fin m"
    using Math_min_least(1)[OF ne nn] fin by (metis isFinite.elims(2))
  obtain M where M: "Math_max ?vals = Fin M"
    using Math_max_greatest(1)[OF ne nn] fin by (metis isFinite.elims(2))
  have "js_le (Fin m) (Fin M)"
    using Math_min_least(2)[OF ne nn] Math_max_greatest(1)[OF ne nn] m M by metis
  then have mM: "m < M" using spread m M by (simp add: js_le_def)
  let ?w = "(M - m) / of_nat ?b"
  have "(0::rat) < of_nat ?b" using b by (simp only: of_nat_0_less_iff)
  then have w: "0 < ?w" using mM by (simp only: zero_less_divide_iff) simp
  have size: "js_div (js_sub (Fin M) (Fin m)) (js_of_nat ?b) = Fin ?w"
    by (rule bin_size_finite[OF b])
  have "\<forall>v \<in> set ?vals. \<exists>k < length (replicate ?b (0::nat)).
          Math_min2 (Math_floor (js_div (js_sub v (Fin m)) (Fin ?w)))
            (js_sub (js_of_nat ?b) (Fin 1)) = Fin (of_nat k)"
  proof
    fix v assume v: "v \<in> set ?vals"
    then obtain q where q: "v = Fin q" using fin by (metis isFinite.elims(2))
    have "js_le (Fin m) (Fin q)"
      using Math_min_least(2)[OF ne nn] v m q by metis
    then have "m \<le> q" by (simp add: js_le_def)
    then show "\<exists>k < length (replicate ?b (0::nat)).
          Math_min2 (Math_floor (js_div (js_sub v (Fin m)) (Fin ?w)))
            (js_sub (js_of_nat ?b) (Fin 1)) = Fin (of_nat k)"
      using bin_index_in_range[OF b w] q by simp
  qed
  then have fb: "sum_list (fill_bins ?vals (Fin m) ?b (Fin ?w)) = length ?vals
      \<and> length (fill_bins ?vals (Fin m) ?b (Fin ?w)) = ?b"
    using fill_fold_sum[of ?vals "replicate ?b 0"
        "\<lambda>v. Math_min2 (Math_floor (js_div (js_sub v (Fin m)) (Fin ?w)))
            (js_sub (js_of_nat ?b) (Fin 1))"]
    by (simp add: fill_bins_def)
  have p: "map hist_y (processHistogramData pf data xAxis)
      = map fst (zip (fill_bins ?vals (Fin m) ?b (Fin ?w))
                   [0..<length (fill_bins ?vals (Fin m) ?b (Fin ?w))])"
    using ne by (simp add: processHistogramData_def Let_def m M size comp_def case_prod_unfold)
  have "map hist_y (processHistogramData pf data xAxis) = fill_bins ?vals (Fin m) ?b (Fin ?w)"
    unfolding p by (simp add: map_fst_zip)
  moreover have "length (processHistogramData pf data xAxis)
      = length (fill_bins ?vals (Fin m) ?b (Fin ?w))"
    using ne by (simp add: processHistogramData_def Let_def m M size)
  ultimately show ?thesis using fb ne by simp
qed

text \<open>No value parses: the series is empty.\<close>

lemma histogram_of_nothing: "histogram_values pf data xAxis = [] \<Longrightarrow> processHistogramData pf data xAxis = []"
  by (simp add: processHistogramData_def)

text \<open>The values 1 to 10: four bins of width 9/4 that hold 3, 2, 2 and 3 values.\<close>

lemma histogram_one_to_ten:
  "processHistogramData pf (map (\<lambda>n. [(''x'', JNum (Fin (of_nat n)))]) [1..<11]) ''x''
   = [\<lparr>hist_x = Fin (17 / 8), hist_y = 3\<rparr>, \<lparr>hist_x = Fin (35 / 8), hist_y = 2\<rparr>,
      \<lparr>hist_x = Fin (53 / 8), hist_y = 2\<rparr>, \<lparr>hist_x = Fin (71 / 8), hist_y = 3\<rparr>]"
  by code_simp

section \<open>Query dispatch\<close>

text \<open>
  C5. A query whose upper-cased text contains both \<open>SELECT\<close> and \<open>FROM\<close> takes the first
  branch of the dispatch whatever else it contains (\<open>WHERE\<close>, \<open>GROUP BY\<close>, an aggregate
  keyword): the executor returns the input table as it is, tagged \<open>SELECT\<close>, and the tool
  reports success with that table as its result. The trimming of the upper-cased query
  does not change which keywords it contains.
\<close>
theorem select_from_is_pass_through:
  assumes "str_includes ''SELECT'' (toUpperCase query)"
      and "str_includes ''FROM'' (toUpperCase query)"
  shows "executeQuery ns query data columns = \<lparr>rows = data, queryType = SELECT\<rparr>
       \<and> result (SQLQueryTool_execute ns query data columns) = Some data
       \<and> out_queryType (SQLQueryTool_execute ns query data columns) = Some SELECT
       \<and> success (SQLQueryTool_execute ns query data columns)"
proof -
  have "executeQuery ns query data columns = \<lparr>rows = data, queryType = SELECT\<rparr>"
    using assms by (simp add: executeQuery_def keyword_trim executeSelectQuery_def)
  then show ?thesis by (simp add: SQLQueryTool_execute_def)
qed

text \<open>
  The query \<open>SELECT * FROM data WHERE x=1\<close> contains \<open>WHERE\<close> too and still returns
  both rows of a table whose second row has \<open>x = 2\<close>.
\<close>

theorem select_from_is_pass_through_witness:
  "str_includes ''SELECT'' (toUpperCase ''SELECT * FROM data WHERE x=1'')
   \<and> str_includes ''FROM'' (toUpperCase ''SELECT * FROM data WHERE x=1'')
   \<and> str_includes ''WHERE'' (toUpperCase ''SELECT * FROM data WHERE x=1'')
   \<and> executeQuery (\<lambda>n. '''') ''SELECT * FROM data WHERE x=1''
        [[(''x'', JNum (Fin 1))], [(''x'', JNum (Fin 2))]] [''x'']
      = \<lparr>rows = [[(''x'', JNum (Fin 1))], [(''x'', JNum (Fin 2))]], queryType = SELECT\<rparr>
   \<and> result (SQLQueryTool_execute (\<lambda>n. '''') ''SELECT * FROM data WHERE x=1''
        [[(''x'', JNum (Fin 1))], [(''x'', JNum (Fin 2))]] [''x''])
      = Some [[(''x'', JNum (Fin 1))], [(''x'', JNum (Fin 2))]]"
proof -
  have s: "str_includes ''SELECT'' (toUpperCase ''SELECT * FROM data WHERE x=1'')"
    by code_simp
  have f: "str_includes ''FROM'' (toUpperCase ''SELECT * FROM data WHERE x=1'')"
    by code_simp
  have w: "str_includes ''WHERE'' (toUpperCase ''SELECT * FROM data WHERE x=1'')"
    by code_simp
  show ?thesis
    using s f w select_from_is_pass_through[OF s f, of "\<lambda>n. ''''"
        "[[(''x'', JNum (Fin 1))], [(''x'', JNum (Fin 2))]]" "[''x'']"]
    by simp
qed

text \<open>
  C8. A query that reaches the GROUP BY executor and whose group column cannot be
  resolved (the pattern \<open>GROUP BY <identifier>\<close> matches nowhere, or the identifier is
  not in the declared columns) is answered like a plain SELECT: the tool reports success,
  no error, the input table as it is and the tag \<open>SELECT\<close>.
\<close>

theorem unknown_group_column_degrades_to_select:
  assumes "reaches_group_by query"
      and "extractGroupByColumn query = None
           \<or> (\<exists>g. extractGroupByColumn query = Some g \<and> g \<notin> set columns)"
  shows "executeQuery ns query data columns = \<lparr>rows = data, queryType = SELECT\<rparr>
       \<and> success (SQLQueryTool_execute ns query data columns)
       \<and> error (SQLQueryTool_execute ns query data columns) = None
       \<and> result (SQLQueryTool_execute ns query data columns) = Some data
       \<and> out_queryType (SQLQueryTool_execute ns query data columns) = Some SELECT"
proof -
  have "executeQuery ns query data columns = executeGroupByQuery query data columns"
    using assms(1)
    by (auto simp add: reaches_group_by_def executeQuery_def keyword_trim Let_def)
  moreover have "executeGroupByQuery query data columns = \<lparr>rows = data, queryType = SELECT\<rparr>"
    using assms(2) by (auto simp add: executeGroupByQuery_def)
  ultimately show ?thesis by (simp add: SQLQueryTool_execute_def)
qed

text \<open>
  \<open>GROUP BY region\<close> on a table with the columns \<open>city\<close> and \<open>sales\<close>; and
  \<open>GROUP BY\<close> alone, from which no identifier is extracted.
\<close>

theorem unknown_group_column_degrades_to_select_witness:
  "reaches_group_by ''GROUP BY region''
   \<and> extractGroupByColumn ''GROUP BY region'' = Some ''region''
   \<and> ''region'' \<notin> set [''city'', ''sales'']
   \<and> SQLQueryTool_execute (\<lambda>n. '''') ''GROUP BY region''
        [[(''city'', JStr ''Oslo''), (''sales'', JNum (Fin 3))]] [''city'', ''sales'']
      = \<lparr>success = True,
         result = Some [[(''city'', JStr ''Oslo''), (''sales'', JNum (Fin 3))]],
         error = None,
         out_queryType = Some SELECT,
         out_summary = Some \<lparr>rowCount = 1, columnCount = 2, numericColumns = [''sales''],
                              categoricalColumns = [''city'']\<rparr>\<rparr>
   \<and> reaches_group_by ''GROUP BY''
   \<and> extractGroupByColumn ''GROUP BY'' = None
   \<and> result (SQLQueryTool_execute (\<lambda>n. '''') ''GROUP BY''
        [[(''city'', JStr ''Oslo'')]] [''city'']) = Some [[(''city'', JStr ''Oslo'')]]
   \<and> out_queryType (SQLQueryTool_execute (\<lambda>n. '''') ''GROUP BY''
        [[(''city'', JStr ''Oslo'')]] [''city'']) = Some SELECT"
proof -
  have r2: "reaches_group_by ''GROUP BY''"
    by code_simp
  have e2: "extractGroupByColumn ''GROUP BY'' = None"
    by code_simp
  have h2: "extractGroupByColumn ''GROUP BY'' = None
           \<or> (\<exists>g. extractGroupByColumn ''GROUP BY'' = Some g \<and> g \<notin> set [''city''])"
    using e2 by simp
  note second = unknown_group_column_degrades_to_select[OF r2 h2, of "\<lambda>n. ''''"
      "[[(''city'', JStr ''Oslo'')]]"]
  have r: "reaches_group_by ''GROUP BY region''"
    by code_simp
  have e: "extractGroupByColumn ''GROUP BY region'' = Some ''region''"
    by code_simp
  have n: "''region'' \<notin> set [''city'', ''sales'']"
    by simp
  have h: "extractGroupByColumn ''GROUP BY region'' = None
           \<or> (\<exists>g. extractGroupByColumn ''GROUP BY region'' = Some g \<and> g \<notin> set [''city'', ''sales''])"
    using e n by simp
  have s: "out_summary (SQLQueryTool_execute (\<lambda>n. '''') ''GROUP BY region''
        [[(''city'', JStr ''Oslo''), (''sales'', JNum (Fin 3))]] [''city'', ''sales''])
     = Some \<lparr>rowCount = 1, columnCount = 2, numericColumns = [''sales''],
                              categoricalColumns = [''city'']\<rparr>"
    by code_simp
  show ?thesis
    using r e n s r2 e2 second unknown_group_column_degrades_to_select[OF r h, of "\<lambda>n. ''''"
      "[[(''city'', JStr ''Oslo''), (''sales'', JNum (Fin 3))]]"]
    by (cases "SQLQueryTool_execute (\<lambda>n. '''') ''GROUP BY region''
        [[(''city'', JStr ''Oslo''), (''sales'', JNum (Fin 3))]] [''city'', ''sales'']") simp
qed

section \<open>Validation of the chart request\<close>

text \<open>
  C9. When the x-axis column or the y-axis column is not in the declared columns, the
  tool returns the failure shape: \<open>success\<close> false, an error message that names the
  missing column (the x-axis column when both are missing, since it is checked first),
  and none of \<open>chartData\<close>, \<open>chartConfig\<close>, \<open>recommendations\<close>.
\<close>

theorem missing_axis_is_rejected:
  assumes "in_xAxis input \<notin> set (in_columns input) \<or> in_yAxis input \<notin> set (in_columns input)"
  shows "VisualizationTool_execute ns pf input =
           \<lparr>viz_success = False, chartData = None, chartConfig = None,
            viz_error = Some
              (if in_xAxis input \<notin> set (in_columns input)
               then ''X-axis column '' @ [CHR 0x27] @ in_xAxis input @ [CHR 0x27] @ '' not found in data''
               else ''Y-axis column '' @ [CHR 0x27] @ in_yAxis input @ [CHR 0x27] @ '' not found in data''),
            recommendations = None\<rparr>"
  using assms by (auto simp add: VisualizationTool_execute_def execute_body_def Let_def)

theorem missing_axis_is_rejected_witness:
  "''price'' \<notin> set [''city'', ''sales'']
   \<and> VisualizationTool_execute (\<lambda>n. '''') (\<lambda>s. NaN)
       \<lparr>in_data = [[(''city'', JStr ''Oslo''), (''sales'', JNum (Fin 3))]],
        in_columns = [''city'', ''sales''], in_chartType = Bar, in_xAxis = ''city'',
        in_yAxis = ''price'', in_title = None, in_options = None\<rparr>
     = \<lparr>viz_success = False, chartData = None, chartConfig = None,
        viz_error = Some (''Y-axis column '' @ [CHR 0x27] @ ''price'' @ [CHR 0x27] @ '' not found in data''),
        recommendations = None\<rparr>"
  using missing_axis_is_rejected[of
       "\<lparr>in_data = [[(''city'', JStr ''Oslo''), (''sales'', JNum (Fin 3))]],
        in_columns = [''city'', ''sales''], in_chartType = Bar, in_xAxis = ''city'',
        in_yAxis = ''price'', in_title = None, in_options = None\<rparr>" "\<lambda>n. ''''" "\<lambda>s. NaN"]
  by simp

section \<open>GROUP BY: the group of the falsy values\<close>

text \<open>
  C10. The group key of a row is \<open>row[g] || 'Unknown'\<close>, so every falsy value of the
  group column (a missing field, null, the number 0, NaN, false, the empty string) gives
  the key \<open>Unknown\<close>. The group of that key holds exactly the rows whose value is falsy
  or is the string \<open>Unknown\<close> itself, in table order, and the result of the query has
  the row built from that group.
\<close>

theorem falsy_group_value_is_unknown:
  assumes "extractGroupByColumn query = Some g" and "g \<in> set columns"
      and "row \<in> set data"
      and "get row g \<in> {JUndef, JNull, JNum (Fin 0), JNum NaN, JBool False, JStr []}"
  shows "groupValue g row = JStr ''Unknown''
       \<and> map_of (group_rows g data) (JStr ''Unknown'')
           = Some (filter (\<lambda>r. \<not> truthy (get r g) \<or> get r g = JStr ''Unknown'') data)
       \<and> row \<in> set (filter (\<lambda>r. \<not> truthy (get r g) \<or> get r g = JStr ''Unknown'') data)
       \<and> group_result_row g (JStr ''Unknown'',
             filter (\<lambda>r. \<not> truthy (get r g) \<or> get r g = JStr ''Unknown'') data)
           \<in> set (rows (executeGroupByQuery query data columns))"
proof -
  let ?U = "filter (\<lambda>r. \<not> truthy (get r g) \<or> get r g = JStr ''Unknown'') data"
  have f: "\<not> truthy (get row g)"
    using assms(4) by (auto simp add: falsy_cases)
  then have gv: "groupValue g row = JStr ''Unknown''"
    by (simp add: groupValue_def)
  have eq: "\<And>r. (groupValue g r = JStr ''Unknown'')
              = (\<not> truthy (get r g) \<or> get r g = JStr ''Unknown'')"
    by (auto simp add: groupValue_def Let_def)
  have "JStr ''Unknown'' \<in> set (first_seen (map (groupValue g) data))"
    using assms(3) gv by (force simp add: set_first_seen)
  then have "map_of (group_rows g data) (JStr ''Unknown'')
      = Some (filter (\<lambda>r. groupValue g r = JStr ''Unknown'') data)"
    unfolding group_rows_eq by (simp add: map_of_map_restrict)
  then have m: "map_of (group_rows g data) (JStr ''Unknown'') = Some ?U"
    by (simp add: eq)
  then have "(JStr ''Unknown'', ?U) \<in> set (group_rows g data)"
    by (rule map_of_SomeD)
  then have "group_result_row g (JStr ''Unknown'', ?U)
      \<in> set (rows (executeGroupByQuery query data columns))"
    unfolding executeGroupByQuery_rows[OF assms(1,2)] by simp
  then show ?thesis using gv f m assms(3) by simp
qed

text \<open>
  A table of three rows grouped by \<open>g\<close>: the row with \<open>g = 0\<close> and the row with no
  \<open>g\<close> share the one group \<open>Unknown\<close>, whose \<open>count_v\<close> is 2.
\<close>

theorem falsy_group_value_is_unknown_witness:
  "extractGroupByColumn ''GROUP BY g'' = Some ''g''
   \<and> get [(''g'', JNum (Fin 0)), (''v'', JNum (Fin 1))] ''g'' = JNum (Fin 0)
   \<and> get [(''v'', JNum (Fin 2))] ''g'' = JUndef
   \<and> map_of (group_rows ''g''
        [[(''g'', JNum (Fin 0)), (''v'', JNum (Fin 1))], [(''v'', JNum (Fin 2))],
         [(''g'', JStr ''a''), (''v'', JNum (Fin 4))]]) (JStr ''Unknown'')
      = Some [[(''g'', JNum (Fin 0)), (''v'', JNum (Fin 1))], [(''v'', JNum (Fin 2))]]
   \<and> rows (executeGroupByQuery ''GROUP BY g''
        [[(''g'', JNum (Fin 0)), (''v'', JNum (Fin 1))], [(''v'', JNum (Fin 2))],
         [(''g'', JStr ''a''), (''v'', JNum (Fin 4))]] [''g'', ''v''])
      = [[(''g'', JStr ''Unknown''), (''count_g'', JNum (Fin 1)), (''sum_g'', JNum (Fin 0)),
          (''avg_g'', JNum (Fin 0)), (''count_v'', JNum (Fin 2)), (''sum_v'', JNum (Fin 3)),
          (''avg_v'', JNum (Fin (3 / 2)))],
         [(''g'', JStr ''a''), (''count_v'', JNum (Fin 1)), (''sum_v'', JNum (Fin 4)),
          (''avg_v'', JNum (Fin 4))]]"
proof -
  let ?r1 = "[(''g'', JNum (Fin 0)), (''v'', JNum (Fin 1))]"
  let ?data = "[?r1, [(''v'', JNum (Fin 2))], [(''g'', JStr ''a''), (''v'', JNum (Fin 4))]]"
  have e: "extractGroupByColumn ''GROUP BY g'' = Some ''g''"
    by code_simp
  have c: "''g'' \<in> set [''g'', ''v'']" by simp
  have r: "?r1 \<in> set ?data" by simp
  have g1: "get ?r1 ''g'' = JNum (Fin 0)" by (simp add: get_def)
  have g2: "get [(''v'', JNum (Fin 2))] ''g'' = JUndef" by (simp add: get_def)
  have v: "get ?r1 ''g'' \<in> {JUndef, JNull, JNum (Fin 0), JNum NaN, JBool False, JStr []}"
    using g1 by simp
  have x: "rows (executeGroupByQuery ''GROUP BY g'' ?data [''g'', ''v''])
      = [[(''g'', JStr ''Unknown''), (''count_g'', JNum (Fin 1)), (''sum_g'', JNum (Fin 0)),
          (''avg_g'', JNum (Fin 0)), (''count_v'', JNum (Fin 2)), (''sum_v'', JNum (Fin 3)),
          (''avg_v'', JNum (Fin (3 / 2)))],
         [(''g'', JStr ''a''), (''count_v'', JNum (Fin 1)), (''sum_v'', JNum (Fin 4)),
          (''avg_v'', JNum (Fin 4))]]"
    by code_simp
  have "map_of (group_rows ''g'' ?data) (JStr ''Unknown'')
      = Some (filter (\<lambda>r. \<not> truthy (get r ''g'') \<or> get r ''g'' = JStr ''Unknown'') ?data)"
    using falsy_group_value_is_unknown[OF e c r v] by blast
  also have "\<dots> = Some [?r1, [(''v'', JNum (Fin 2))]]"
    by (simp add: get_def)
  finally show ?thesis using e g1 g2 x by simp
qed

section \<open>Column classification\<close>

text \<open>
  C2 (as stated, refuted). The claim counts a non-empty string that parses as a finite
  number as numeric. \<open>getNumericColumns\<close> tests \<open>typeof val === 'number'\<close> and parses
  no string: the one-row table whose column \<open>x\<close> holds the string \<open>5\<close> has a sampled
  value that counts as numeric in the claim's sense, and \<open>x\<close> is categorical.
\<close>

theorem string_column_is_not_numeric:
  "list_ex (spec_counts_as_numeric (\<lambda>s. if s = ''5'' then Fin 5 else NaN))
      (map (\<lambda>row. get row ''x'') (take 10 [[(''x'', JStr ''5'')]]))
   \<and> ''x'' \<notin> set (getNumericColumns [[(''x'', JStr ''5'')]])
   \<and> ''x'' \<in> set (getCategoricalColumns [[(''x'', JStr ''5'')]])"
  by (simp add: spec_counts_as_numeric_def getNumericColumns_def getCategoricalColumns_def
      Object_keys_def get_def)

text \<open>
  C2 (amended). A column is numeric exactly when the table is not empty, the column is a
  key of the first row, and one of the first ten rows (all of them when there are fewer)
  holds for it a value of number type that is not NaN. A key of the first row that is
  not numeric is categorical. A column that is no key of the first row is in neither list.
\<close>

theorem numeric_columns_characterisation:
  "(col \<in> set (getNumericColumns data))
     = (\<exists>r0 rest. data = r0 # rest \<and> col \<in> set (Object_keys r0)
          \<and> (\<exists>row \<in> set (take 10 data). \<exists>n. get row col = JNum n \<and> n \<noteq> NaN))
   \<and> (col \<in> set (getCategoricalColumns data))
     = (\<exists>r0 rest. data = r0 # rest \<and> col \<in> set (Object_keys r0)
          \<and> \<not> (\<exists>row \<in> set (take 10 data). \<exists>n. get row col = JNum n \<and> n \<noteq> NaN))"
proof -
  have n: "(col \<in> set (getNumericColumns data))
     = (\<exists>r0 rest. data = r0 # rest \<and> col \<in> set (Object_keys r0)
          \<and> (\<exists>row \<in> set (take 10 data). \<exists>n. get row col = JNum n \<and> n \<noteq> NaN))"
    by (cases data) (auto simp add: getNumericColumns_def list_ex_iff is_number_iff)
  have "(col \<in> set (getCategoricalColumns data))
     = (\<exists>r0 rest. data = r0 # rest \<and> col \<in> set (Object_keys r0)
          \<and> col \<notin> set (getNumericColumns data))"
    by (cases data) (auto simp add: getCategoricalColumns_def)
  then show ?thesis using n by auto
qed

text \<open>
  Two rows: \<open>b\<close> is null in the first and a number in the second, so it is numeric;
  \<open>a\<close> holds the string \<open>7\<close> and is categorical; \<open>c\<close> is missing from the first row
  and is in neither list.
\<close>

theorem numeric_columns_characterisation_witness:
  "''b'' \<in> set (getNumericColumns [[(''a'', JStr ''7''), (''b'', JNull)], [(''b'', JNum (Fin 2)), (''c'', JNum (Fin 1))]])
   \<and> ''a'' \<in> set (getCategoricalColumns [[(''a'', JStr ''7''), (''b'', JNull)], [(''b'', JNum (Fin 2)), (''c'', JNum (Fin 1))]])
   \<and> ''c'' \<notin> set (getNumericColumns [[(''a'', JStr ''7''), (''b'', JNull)], [(''b'', JNum (Fin 2)), (''c'', JNum (Fin 1))]])
   \<and> ''c'' \<notin> set (getCategoricalColumns [[(''a'', JStr ''7''), (''b'', JNull)], [(''b'', JNum (Fin 2)), (''c'', JNum (Fin 1))]])"
proof -
  let ?d = "[[(''a'', JStr ''7''), (''b'', JNull)], [(''b'', JNum (Fin 2)), (''c'', JNum (Fin 1))]]"
  have "''b'' \<in> set (getNumericColumns ?d)"
    using numeric_columns_characterisation[of "''b''" ?d]
    by (simp add: Object_keys_def get_def)
  moreover have "''a'' \<in> set (getCategoricalColumns ?d)"
    using numeric_columns_characterisation[of "''a''" ?d]
    by (simp add: Object_keys_def get_def)
  moreover have "''c'' \<notin> set (getNumericColumns ?d) \<and> ''c'' \<notin> set (getCategoricalColumns ?d)"
    using numeric_columns_characterisation[of "''c''" ?d]
    by (simp add: Object_keys_def get_def)
  ultimately show ?thesis by simp
qed

section \<open>AGGREGATE\<close>

text \<open>
  C3 (as stated, refuted). The claim counts in \<open>count_c\<close> the values of the column that
  parse as a finite number and sums them in \<open>sum_c\<close>. The executor keeps the values with
  \<open>typeof val === 'number' && !isNaN(val)\<close> and parses no string: in the table of the
  two rows \<open>{x: 1}\<close> and \<open>{x: "2"}\<close> both values parse as finite numbers, and the
  result has \<open>count_x = 1\<close> and \<open>sum_x = 1\<close>.
\<close>

theorem string_values_are_not_aggregated:
  "length (filter (spec_parses_finite (\<lambda>s. if s = ''2'' then Fin 2 else NaN))
      (map (\<lambda>row. get row ''x'') [[(''x'', JNum (Fin 1))], [(''x'', JStr ''2'')]])) = 2
   \<and> rows (executeAggregateQuery ''COUNT'' [[(''x'', JNum (Fin 1))], [(''x'', JStr ''2'')]] [''x''])
     = [[(''count_x'', JNum (Fin 1)), (''sum_x'', JNum (Fin 1)), (''avg_x'', JNum (Fin 1)),
         (''min_x'', JNum (Fin 1)), (''max_x'', JNum (Fin 1))]]"
  by code_simp

text \<open>
  C3 (amended). The aggregate query returns exactly one row. For every numeric column
  \<open>c\<close> (which always has at least one value of number type that is not NaN) the row
  holds \<open>count_c\<close>, the number of rows of the whole table whose value for \<open>c\<close> is of
  number type and not NaN; \<open>sum_c\<close>, their sum; \<open>avg_c\<close>, the sum over the count;
  \<open>min_c\<close> and \<open>max_c\<close>, the least and the greatest of them. The row has no other
  field: a column that is not numeric contributes none.
\<close>

theorem aggregate_query_result:
  "\<exists>res. rows (executeAggregateQuery query data columns) = [res]
     \<and> queryType (executeAggregateQuery query data columns) = AGGREGATE
     \<and> (\<forall>col \<in> set (getNumericColumns data).
          numeric_values data col \<noteq> []
          \<and> length (numeric_values data col)
              = length (filter (\<lambda>row. \<exists>n. get row col = JNum n \<and> n \<noteq> NaN) data)
          \<and> get res (''count_'' @ col) = JNum (js_of_nat (length (numeric_values data col)))
          \<and> get res (''sum_'' @ col) = JNum (sum_reduce (numeric_values data col))
          \<and> get res (''avg_'' @ col)
              = JNum (js_div (sum_reduce (numeric_values data col))
                        (js_of_nat (length (numeric_values data col))))
          \<and> get res (''min_'' @ col) = JNum (Math_min (numeric_values data col))
          \<and> get res (''max_'' @ col) = JNum (Math_max (numeric_values data col))
          \<and> Math_min (numeric_values data col) \<in> set (numeric_values data col)
          \<and> Math_max (numeric_values data col) \<in> set (numeric_values data col)
          \<and> (\<forall>v \<in> set (numeric_values data col).
                js_le (Math_min (numeric_values data col)) v
                \<and> js_le v (Math_max (numeric_values data col))))
     \<and> (\<forall>k v. map_of res k = Some v \<longrightarrow>
            (\<exists>col \<in> set (getNumericColumns data). k \<in> aggregate_keys col))
     \<and> (\<forall>col. col \<notin> set (getNumericColumns data) \<longrightarrow>
            (\<forall>k \<in> aggregate_keys col. map_of res k = None))"
proof -
  let ?cols = "getNumericColumns data"
  let ?res = "foldl (aggregate_column data) [] ?cols"
  have fields: "\<And>col k. col \<in> set ?cols \<Longrightarrow> k \<in> aggregate_keys col \<Longrightarrow>
      map_of ?res k = map_of (aggregate_column data [] col) k"
    by (rule aggregate_fold_fields) (simp_all add: numeric_column_has_values)
  have per_col: "numeric_values data col \<noteq> []
          \<and> length (numeric_values data col)
              = length (filter (\<lambda>row. \<exists>n. get row col = JNum n \<and> n \<noteq> NaN) data)
          \<and> get ?res (''count_'' @ col) = JNum (js_of_nat (length (numeric_values data col)))
          \<and> get ?res (''sum_'' @ col) = JNum (sum_reduce (numeric_values data col))
          \<and> get ?res (''avg_'' @ col)
              = JNum (js_div (sum_reduce (numeric_values data col))
                        (js_of_nat (length (numeric_values data col))))
          \<and> get ?res (''min_'' @ col) = JNum (Math_min (numeric_values data col))
          \<and> get ?res (''max_'' @ col) = JNum (Math_max (numeric_values data col))
          \<and> Math_min (numeric_values data col) \<in> set (numeric_values data col)
          \<and> Math_max (numeric_values data col) \<in> set (numeric_values data col)
          \<and> (\<forall>v \<in> set (numeric_values data col).
                js_le (Math_min (numeric_values data col)) v
                \<and> js_le v (Math_max (numeric_values data col)))"
    if c: "col \<in> set ?cols" for col
  proof -
    have ne: "numeric_values data col \<noteq> []"
      by (rule numeric_column_has_values[OF c])
    have "get ?res (''count_'' @ col) = JNum (js_of_nat (length (numeric_values data col)))"
      using fields[OF c, of "''count_'' @ col"] ne
      by (simp add: get_def aggregate_keys_def map_of_aggregate_column)
    moreover have "get ?res (''sum_'' @ col) = JNum (sum_reduce (numeric_values data col))"
      using fields[OF c, of "''sum_'' @ col"] ne
      by (simp add: get_def aggregate_keys_def map_of_aggregate_column)
    moreover have "get ?res (''avg_'' @ col)
              = JNum (js_div (sum_reduce (numeric_values data col))
                        (js_of_nat (length (numeric_values data col))))"
      using fields[OF c, of "''avg_'' @ col"] ne
      by (simp add: get_def aggregate_keys_def map_of_aggregate_column)
    moreover have "get ?res (''min_'' @ col) = JNum (Math_min (numeric_values data col))"
      using fields[OF c, of "''min_'' @ col"] ne
      by (simp add: get_def aggregate_keys_def map_of_aggregate_column)
    moreover have "get ?res (''max_'' @ col) = JNum (Math_max (numeric_values data col))"
      using fields[OF c, of "''max_'' @ col"] ne
      by (simp add: get_def aggregate_keys_def map_of_aggregate_column)
    moreover note ne length_numeric_values[of data col]
      Math_min_least[OF ne numeric_values_not_NaN]
      Math_max_greatest[OF ne numeric_values_not_NaN]
    ultimately show ?thesis by simp
  qed
  have keys: "\<exists>col \<in> set ?cols. k \<in> aggregate_keys col" if "map_of ?res k = Some v" for k v
    using aggregate_fold_keys[OF that] by auto
  have absent: "map_of ?res k = None" if "col \<notin> set ?cols" and "k \<in> aggregate_keys col" for col k
  proof (rule ccontr)
    assume "map_of ?res k \<noteq> None"
    then obtain v where "map_of ?res k = Some v" by auto
    then obtain c where "c \<in> set ?cols" and "k \<in> aggregate_keys c" using keys by blast
    then show False using that aggregate_keys_disjoint by metis
  qed
  have "rows (executeAggregateQuery query data columns) = [?res]"
    and "queryType (executeAggregateQuery query data columns) = AGGREGATE"
    by (simp_all add: executeAggregateQuery_def)
  then show ?thesis using per_col keys absent by blast
qed

text \<open>
  The table \<open>[{x: 1, y: 2}, {x: 3, y: 4}]\<close>: one row, with the fields 2, 4, 2, 1, 3
  for \<open>x\<close> and 2, 6, 3, 2, 4 for \<open>y\<close>.
\<close>

theorem aggregate_query_result_witness:
  "getNumericColumns [[(''x'', JNum (Fin 1)), (''y'', JNum (Fin 2))],
                      [(''x'', JNum (Fin 3)), (''y'', JNum (Fin 4))]] = [''x'', ''y'']
   \<and> length (rows (executeAggregateQuery ''SUM''
        [[(''x'', JNum (Fin 1)), (''y'', JNum (Fin 2))],
         [(''x'', JNum (Fin 3)), (''y'', JNum (Fin 4))]] [''x'', ''y''])) = 1
   \<and> map (get (hd (rows (executeAggregateQuery ''SUM''
        [[(''x'', JNum (Fin 1)), (''y'', JNum (Fin 2))],
         [(''x'', JNum (Fin 3)), (''y'', JNum (Fin 4))]] [''x'', ''y'']))))
        [''count_x'', ''sum_x'', ''avg_x'', ''min_x'', ''max_x'']
     = [JNum (Fin 2), JNum (Fin 4), JNum (Fin 2), JNum (Fin 1), JNum (Fin 3)]
   \<and> map (get (hd (rows (executeAggregateQuery ''SUM''
        [[(''x'', JNum (Fin 1)), (''y'', JNum (Fin 2))],
         [(''x'', JNum (Fin 3)), (''y'', JNum (Fin 4))]] [''x'', ''y'']))))
        [''count_y'', ''sum_y'', ''avg_y'', ''min_y'', ''max_y'']
     = [JNum (Fin 2), JNum (Fin 6), JNum (Fin 3), JNum (Fin 2), JNum (Fin 4)]"
proof -
  let ?D = "[[(''x'', JNum (Fin 1)), (''y'', JNum (Fin 2))],
             [(''x'', JNum (Fin 3)), (''y'', JNum (Fin 4))]]"
  have cols: "getNumericColumns ?D = [''x'', ''y'']"
    by code_simp
  have vx: "numeric_values ?D ''x'' = [Fin 1, Fin 3]"
    by (simp add: numeric_values_def get_def)
  have vy: "numeric_values ?D ''y'' = [Fin 2, Fin 4]"
    by (simp add: numeric_values_def get_def)
  have ev: "sum_reduce [Fin 1, Fin 3] = Fin 4" "sum_reduce [Fin 2, Fin 4] = Fin 6"
    "Math_min [Fin 1, Fin 3] = Fin 1" "Math_max [Fin 1, Fin 3] = Fin 3"
    "Math_min [Fin 2, Fin 4] = Fin 2" "Math_max [Fin 2, Fin 4] = Fin 4"    by (simp_all add: sum_reduce_def Math_min_def Math_max_def Math_min2_def Math_max2_def)
  obtain res where res: "rows (executeAggregateQuery ''SUM'' ?D [''x'', ''y'']) = [res]"
    and per: "\<forall>col \<in> set (getNumericColumns ?D).
          get res (''count_'' @ col) = JNum (js_of_nat (length (numeric_values ?D col)))
          \<and> get res (''sum_'' @ col) = JNum (sum_reduce (numeric_values ?D col))
          \<and> get res (''avg_'' @ col)
              = JNum (js_div (sum_reduce (numeric_values ?D col))
                        (js_of_nat (length (numeric_values ?D col))))
          \<and> get res (''min_'' @ col) = JNum (Math_min (numeric_values ?D col))
          \<and> get res (''max_'' @ col) = JNum (Math_max (numeric_values ?D col))"
    using aggregate_query_result[of "''SUM''" ?D "[''x'', ''y'']"] by blast
  have x: "map (get res) [''count_x'', ''sum_x'', ''avg_x'', ''min_x'', ''max_x'']
     = [JNum (Fin 2), JNum (Fin 4), JNum (Fin 2), JNum (Fin 1), JNum (Fin 3)]"
    using per[unfolded cols, THEN bspec, of "''x''"] by (simp add: vx ev js_of_nat_def)
  have y: "map (get res) [''count_y'', ''sum_y'', ''avg_y'', ''min_y'', ''max_y'']
     = [JNum (Fin 2), JNum (Fin 6), JNum (Fin 3), JNum (Fin 2), JNum (Fin 4)]"
    using per[unfolded cols, THEN bspec, of "''y''"] by (simp add: vy ev js_of_nat_def)
  show ?thesis
    unfolding res using cols x y by simp
qed

section \<open>FILTER\<close>

text \<open>
  C4 (as stated, refuted). By the claim a clause with a \<open>=\<close> and a non-empty column
  part keeps a row only when the string form of its value equals the literal. The
  predicate of the executor tests \<open>column && value\<close>: when the value part is empty it
  keeps every row. The query \<open>WHERE x=\<close> has the clause \<open>x=\<close>, whose literal is the
  empty string; the row \<open>{x: "a"}\<close> is kept, and the filter of the claim drops it.
\<close>

theorem empty_value_keeps_every_row:
  "extractFilterCondition ''WHERE x='' = Some ''x=''
   \<and> rows (executeFilterQuery (\<lambda>n. '''') ''WHERE x='' [[(''x'', JStr ''a'')]] [''x''])
       = [[(''x'', JStr ''a'')]]
   \<and> filter (spec_filter_keeps (\<lambda>n. '''') ''x='') [[(''x'', JStr ''a'')]] = []"
  by code_simp

text \<open>
  C4 (amended). For a query with a non-empty clause, the column part is the text before
  the first \<open>=\<close> and the value part is the text between the first \<open>=\<close> and the second
  (or the end). When the clause has a \<open>=\<close> and both parts are non-empty, a row is kept
  exactly when its value for the trimmed column part is neither null nor undefined and
  its string form equals the trimmed value part with every quote character removed;
  otherwise every row is kept. The result is tagged \<open>FILTER\<close>.
\<close>

theorem filter_query_result:
  assumes "extractFilterCondition query = Some clause" and "clause \<noteq> []"
  shows "executeFilterQuery ns query data columns =
     (let column = takeWhile (\<lambda>c. c \<noteq> CHR ''='') clause;
          val = takeWhile (\<lambda>c. c \<noteq> CHR ''='') (drop 1 (dropWhile (\<lambda>c. c \<noteq> CHR ''='') clause))
      in \<lparr>rows =
            (if CHR ''='' \<in> set clause \<and> column \<noteq> [] \<and> val \<noteq> []
             then filter (\<lambda>row. toString_opt ns (get row (trim column))
                                  = Some (filter (\<lambda>c. c \<noteq> CHR 0x27 \<and> c \<noteq> CHR 0x22) (trim val)))
                    data
             else data),
          queryType = FILTER\<rparr>)"
proof -
  let ?column = "takeWhile (\<lambda>c. c \<noteq> CHR ''='') clause"
  let ?val = "takeWhile (\<lambda>c. c \<noteq> CHR ''='') (drop 1 (dropWhile (\<lambda>c. c \<noteq> CHR ''='') clause))"
  have ex: "executeFilterQuery ns query data columns
      = \<lparr>rows = filter (filter_keeps ns clause) data, queryType = FILTER\<rparr>"
    using assms by (simp add: executeFilterQuery_def)
  show ?thesis
  proof (cases "CHR ''='' \<in> set clause \<and> ?column \<noteq> [] \<and> ?val \<noteq> []")
    case True
    then have "filter_keeps ns clause
        = (\<lambda>row. toString_opt ns (get row (trim ?column)) = Some (strip_quotes (trim ?val)))"
      by (intro ext) (simp add: filter_keeps_eq Let_def)
    then show ?thesis using True ex by (simp add: Let_def strip_quotes_def)
  next
    case False
    then have "filter_keeps ns clause = (\<lambda>row. True)"
      by (intro ext) (auto simp add: filter_keeps_eq Let_def)
    then show ?thesis using False ex by (auto simp add: Let_def)
  qed
qed

text \<open>
  The clause \<open>status = 'active'\<close> on three rows with the statuses active, inactive,
  active: the two active rows.
\<close>

theorem filter_query_result_witness:
  "extractFilterCondition (''WHERE status = '' @ [CHR 0x27] @ ''active'' @ [CHR 0x27])
     = Some (''status = '' @ [CHR 0x27] @ ''active'' @ [CHR 0x27])
   \<and> executeFilterQuery (\<lambda>n. '''') (''WHERE status = '' @ [CHR 0x27] @ ''active'' @ [CHR 0x27])
       [[(''status'', JStr ''active'')], [(''status'', JStr ''inactive'')],
        [(''status'', JStr ''active'')]] [''status'']
     = \<lparr>rows = [[(''status'', JStr ''active'')], [(''status'', JStr ''active'')]],
        queryType = FILTER\<rparr>"
proof -
  let ?q = "''WHERE status = '' @ [CHR 0x27] @ ''active'' @ [CHR 0x27]"
  let ?c = "''status = '' @ [CHR 0x27] @ ''active'' @ [CHR 0x27]"
  have e: "extractFilterCondition ?q = Some ?c"
    by code_simp
  have ne: "?c \<noteq> []" by simp
  have sp: "is_space CHR '' ''" "\<not> is_space CHR ''s''" "\<not> is_space CHR ''e''"
    "\<not> is_space (CHR 0x27)"
    by (simp_all add: is_space_def)
  show ?thesis
    using e filter_query_result[OF e ne, of "\<lambda>n. ''''"
      "[[(''status'', JStr ''active'')], [(''status'', JStr ''inactive'')],
        [(''status'', JStr ''active'')]]" "[''status'']"]
    by (simp add: Let_def trim_def get_def sp)
qed

section \<open>GROUP BY: one row per group key\<close>

text \<open>
  C6 (as stated, refuted). The claim has one result row per distinct string form of the
  group value, a missing value taking the label \<open>Unknown\<close>. The executor keys the groups
  by \<open>row[g] || 'Unknown'\<close>: the value itself, and \<open>Unknown\<close> for every falsy value. In
  the table of the two rows \<open>{g: false}\<close> and \<open>{}\<close> the labels of the claim are
  \<open>false\<close> and \<open>Unknown\<close>, two distinct ones, and the result has one row.
\<close>

theorem false_and_missing_share_one_group:
  "extractGroupByColumn ''GROUP BY g'' = Some ''g''
   \<and> map (spec_group_label (\<lambda>n. '''') ''g'') [[(''g'', JBool False)], []] = [''false'', ''Unknown'']
   \<and> rows (executeGroupByQuery ''GROUP BY g'' [[(''g'', JBool False)], []] [''g''])
       = [[(''g'', JStr ''Unknown'')]]"
  by code_simp

text \<open>
  C6 (amended). When the extracted group column \<open>g\<close> is a declared column, the result is
  tagged \<open>GROUP_BY\<close> and has exactly one row per distinct group key, in the order the keys
  are first seen, where the key of a row is its value for \<open>g\<close> as it is (not its string
  form) and \<open>Unknown\<close> when that value is falsy. The row of a key is built from the rows
  of the table with that key (there is at least one): it holds the key under \<open>g\<close>,
  unless \<open>g\<close> is itself the name of an aggregate field of a numeric column of the
  group; for every column that is numeric on the rows of the group (such a column has a
  value of number type that is not NaN in the group) it holds \<open>count_c\<close>, \<open>sum_c\<close> and
  \<open>avg_c\<close> of those values; and it holds nothing else.
\<close>

theorem group_by_result:
  assumes "extractGroupByColumn query = Some g" and "g \<in> set columns"
  shows "queryType (executeGroupByQuery query data columns) = GROUP_BY
   \<and> rows (executeGroupByQuery query data columns)
       = map (\<lambda>k. group_result_row g (k, filter (\<lambda>row. groupValue g row = k) data))
           (first_seen (map (groupValue g) data))
   \<and> length (rows (executeGroupByQuery query data columns)) = card (groupValue g ` set data)
   \<and> (\<forall>k \<in> groupValue g ` set data.
         filter (\<lambda>row. groupValue g row = k) data \<noteq> []
         \<and> ((\<forall>col \<in> set (getNumericColumns (filter (\<lambda>row. groupValue g row = k) data)).
                g \<notin> group_keys col)
              \<longrightarrow> get (group_result_row g (k, filter (\<lambda>row. groupValue g row = k) data)) g = k)
         \<and> (\<forall>col \<in> set (getNumericColumns (filter (\<lambda>row. groupValue g row = k) data)).
               numeric_values (filter (\<lambda>row. groupValue g row = k) data) col \<noteq> []
               \<and> get (group_result_row g (k, filter (\<lambda>row. groupValue g row = k) data))
                     (''count_'' @ col)
                   = JNum (js_of_nat (length
                       (numeric_values (filter (\<lambda>row. groupValue g row = k) data) col)))
               \<and> get (group_result_row g (k, filter (\<lambda>row. groupValue g row = k) data))
                     (''sum_'' @ col)
                   = JNum (sum_reduce
                       (numeric_values (filter (\<lambda>row. groupValue g row = k) data) col))
               \<and> get (group_result_row g (k, filter (\<lambda>row. groupValue g row = k) data))
                     (''avg_'' @ col)
                   = JNum (js_div
                       (sum_reduce (numeric_values (filter (\<lambda>row. groupValue g row = k) data) col))
                       (js_of_nat (length
                          (numeric_values (filter (\<lambda>row. groupValue g row = k) data) col)))))
         \<and> (\<forall>key v.
               map_of (group_result_row g (k, filter (\<lambda>row. groupValue g row = k) data)) key
                 = Some v
               \<longrightarrow> key = g
                   \<or> (\<exists>col \<in> set (getNumericColumns (filter (\<lambda>row. groupValue g row = k) data)).
                        key \<in> group_keys col)))"
proof -
  have ex: "executeGroupByQuery query data columns
      = \<lparr>rows = map (group_result_row g) (group_rows g data), queryType = GROUP_BY\<rparr>"
    by (rule executeGroupByQuery_rows[OF assms])
  have r: "rows (executeGroupByQuery query data columns)
       = map (\<lambda>k. group_result_row g (k, filter (\<lambda>row. groupValue g row = k) data))
           (first_seen (map (groupValue g) data))"
    unfolding ex group_rows_eq by (simp add: comp_def)
  have l: "length (rows (executeGroupByQuery query data columns)) = card (groupValue g ` set data)"
    unfolding r by (simp add: length_first_seen)
  have ne: "filter (\<lambda>row. groupValue g row = k) data \<noteq> []" if "k \<in> groupValue g ` set data" for k
    using that by (auto simp add: filter_empty_conv)
  show ?thesis
    using ex r l ne group_result_row_key group_result_row_fields group_result_row_only
    by (intro conjI ballI allI impI) simp_all
qed

text \<open>
  Four rows with the keys \<open>b\<close>, \<open>a\<close>, \<open>b\<close> and the number 1: three result rows, in
  the order \<open>b\<close>, \<open>a\<close>, 1. In the last group \<open>v\<close> holds the string \<open>4\<close> and is not
  numeric, while \<open>g\<close> itself is.
\<close>

theorem group_by_result_witness:
  "extractGroupByColumn ''GROUP BY g'' = Some ''g''
   \<and> rows (executeGroupByQuery ''GROUP BY g''
        [[(''g'', JStr ''b''), (''v'', JNum (Fin 1))],
         [(''g'', JStr ''a''), (''v'', JNum (Fin 2))],
         [(''g'', JStr ''b''), (''v'', JNum (Fin 3))],
         [(''g'', JNum (Fin 1)), (''v'', JStr ''4'')]] [''g'', ''v''])
     = [[(''g'', JStr ''b''), (''count_v'', JNum (Fin 2)), (''sum_v'', JNum (Fin 4)),
         (''avg_v'', JNum (Fin 2))],
        [(''g'', JStr ''a''), (''count_v'', JNum (Fin 1)), (''sum_v'', JNum (Fin 2)),
         (''avg_v'', JNum (Fin 2))],
        [(''g'', JNum (Fin 1)), (''count_g'', JNum (Fin 1)), (''sum_g'', JNum (Fin 1)),
         (''avg_g'', JNum (Fin 1))]]"
proof -
  let ?D = "[[(''g'', JStr ''b''), (''v'', JNum (Fin 1))],
         [(''g'', JStr ''a''), (''v'', JNum (Fin 2))],
         [(''g'', JStr ''b''), (''v'', JNum (Fin 3))],
         [(''g'', JNum (Fin 1)), (''v'', JStr ''4'')]]"
  have e: "extractGroupByColumn ''GROUP BY g'' = Some ''g''"
    by code_simp
  have c: "''g'' \<in> set [''g'', ''v'']" by simp
  have v: "map (\<lambda>k. group_result_row ''g'' (k, filter (\<lambda>row. groupValue ''g'' row = k) ?D))
           (first_seen (map (groupValue ''g'') ?D))
     = [[(''g'', JStr ''b''), (''count_v'', JNum (Fin 2)), (''sum_v'', JNum (Fin 4)),
         (''avg_v'', JNum (Fin 2))],
        [(''g'', JStr ''a''), (''count_v'', JNum (Fin 1)), (''sum_v'', JNum (Fin 2)),
         (''avg_v'', JNum (Fin 2))],
        [(''g'', JNum (Fin 1)), (''count_g'', JNum (Fin 1)), (''sum_g'', JNum (Fin 1)),
         (''avg_g'', JNum (Fin 1))]]"
    by code_simp
  have "rows (executeGroupByQuery ''GROUP BY g'' ?D [''g'', ''v''])
     = map (\<lambda>k. group_result_row ''g'' (k, filter (\<lambda>row. groupValue ''g'' row = k) ?D))
           (first_seen (map (groupValue ''g'') ?D))"
    using group_by_result[OF e c, of ?D] by blast
  then show ?thesis using e v by simp
qed

section \<open>Box plot\<close>

text \<open>
  C7. The box-plot series has one entry per x label that has at least one row whose y
  parses, in first-seen order. The statistics of an entry are read from the ascending
  sort of the parsed y values of its group (a permutation of them, ordered by \<open>\<le>\<close>):
  the minimum at index 0, the first quartile at index \<open>n div 4\<close>, the median at
  \<open>n div 2\<close>, the third quartile at \<open>3 * n div 4\<close> and the maximum at \<open>n - 1\<close>, where
  \<open>n\<close> is the number of values; these are \<open>floor(n * 0.25)\<close>, \<open>floor(n * 0.5)\<close> and
  \<open>floor(n * 0.75)\<close>, all defined, with no interpolation. Hence
  \<open>min \<le> q1 \<le> median \<le> q3 \<le> max\<close> in every entry.
\<close>

theorem box_plot_quantiles:
  "map box_x (processBoxData ns pf data xAxis yAxis)
     = first_seen (map (xValue ns xAxis)
         (filter (\<lambda>row. \<not> isNaN (parseFloat pf (get row yAxis))) data))
   \<and> (\<forall>e \<in> set (processBoxData ns pf data xAxis yAxis).
        group_values ns pf data xAxis yAxis (box_x e) \<noteq> []
        \<and> mset (sort_ascending (group_values ns pf data xAxis yAxis (box_x e)))
            = mset (group_values ns pf data xAxis yAxis (box_x e))
        \<and> sorted_wrt js_le (sort_ascending (group_values ns pf data xAxis yAxis (box_x e)))
        \<and> box_min e = Some (sort_ascending (group_values ns pf data xAxis yAxis (box_x e)) ! 0)
        \<and> box_q1 e = Some (sort_ascending (group_values ns pf data xAxis yAxis (box_x e))
                          ! (length (group_values ns pf data xAxis yAxis (box_x e)) div 4))
        \<and> box_median e = Some (sort_ascending (group_values ns pf data xAxis yAxis (box_x e))
                          ! (length (group_values ns pf data xAxis yAxis (box_x e)) div 2))
        \<and> box_q3 e = Some (sort_ascending (group_values ns pf data xAxis yAxis (box_x e))
                          ! (3 * length (group_values ns pf data xAxis yAxis (box_x e)) div 4))
        \<and> box_max e = Some (sort_ascending (group_values ns pf data xAxis yAxis (box_x e))
                          ! (length (group_values ns pf data xAxis yAxis (box_x e)) - 1))
        \<and> js_le (the (box_min e)) (the (box_q1 e))
        \<and> js_le (the (box_q1 e)) (the (box_median e))
        \<and> js_le (the (box_median e)) (the (box_q3 e))
        \<and> js_le (the (box_q3 e)) (the (box_max e)))"
proof (intro conjI ballI)
  let ?ks = "first_seen (map (xValue ns xAxis)
         (filter (\<lambda>row. \<not> isNaN (parseFloat pf (get row yAxis))) data))"
  show "map box_x (processBoxData ns pf data xAxis yAxis) = ?ks"
    by (simp add: processBoxData_eq comp_def box_x_box_of_group)
  fix e assume "e \<in> set (processBoxData ns pf data xAxis yAxis)"
  then obtain k where k: "k \<in> set ?ks"
    and e: "e = box_of_group (k, group_values ns pf data xAxis yAxis k)"
    by (auto simp add: processBoxData_eq)
  let ?ys = "group_values ns pf data xAxis yAxis k"
  have x: "box_x e = k" by (simp add: e box_x_box_of_group)
  obtain row where "row \<in> set data" and "\<not> isNaN (parseFloat pf (get row yAxis))"
    and "xValue ns xAxis row = k"
    using k by (auto simp add: set_first_seen)
  then have ne: "?ys \<noteq> []"
    by (auto simp add: group_values_def filter_empty_conv)
  note nn = group_values_not_NaN[of ns pf data xAxis yAxis k]
  note f = box_of_group_fields[OF ne nn, of k, folded e]
  note q = quantiles_ordered[OF ne nn]
  show "group_values ns pf data xAxis yAxis (box_x e) \<noteq> []"
    using ne x by simp
  show "mset (sort_ascending (group_values ns pf data xAxis yAxis (box_x e)))
            = mset (group_values ns pf data xAxis yAxis (box_x e))"
    unfolding x by (rule mset_sort_ascending[OF nn])
  show "sorted_wrt js_le (sort_ascending (group_values ns pf data xAxis yAxis (box_x e)))"
    unfolding x by (rule sort_ascending_sorted[OF nn])
  show "box_min e = Some (sort_ascending (group_values ns pf data xAxis yAxis (box_x e)) ! 0)"
    unfolding x by (rule f(1))
  show "box_q1 e = Some (sort_ascending (group_values ns pf data xAxis yAxis (box_x e))
                          ! (length (group_values ns pf data xAxis yAxis (box_x e)) div 4))"
    unfolding x by (rule f(2))
  show "box_median e = Some (sort_ascending (group_values ns pf data xAxis yAxis (box_x e))
                          ! (length (group_values ns pf data xAxis yAxis (box_x e)) div 2))"
    unfolding x by (rule f(3))
  show "box_q3 e = Some (sort_ascending (group_values ns pf data xAxis yAxis (box_x e))
                          ! (3 * length (group_values ns pf data xAxis yAxis (box_x e)) div 4))"
    unfolding x by (rule f(4))
  show "box_max e = Some (sort_ascending (group_values ns pf data xAxis yAxis (box_x e))
                          ! (length (group_values ns pf data xAxis yAxis (box_x e)) - 1))"
    unfolding x by (rule f(5))
  show "js_le (the (box_min e)) (the (box_q1 e))"
    using q(1) by (simp add: f)
  show "js_le (the (box_q1 e)) (the (box_median e))"
    using q(2) by (simp add: f)
  show "js_le (the (box_median e)) (the (box_q3 e))"
    using q(3) by (simp add: f)
  show "js_le (the (box_q3 e)) (the (box_max e))"
    using q(4) by (simp add: f)
qed

text \<open>
  Group \<open>a\<close> has the y values 5, 1, 4, the string \<open>2\<close> and 3; the only row of group
  \<open>b\<close> has a y that does not parse, so there is no entry for \<open>b\<close>. Sorted, the
  values are 1 to 5 and the statistics are 1, 2, 3, 4, 5.
\<close>

theorem box_plot_quantiles_witness:
  "processBoxData (\<lambda>n. '''') (\<lambda>s. if s = ''2'' then Fin 2 else NaN)
     [[(''g'', JStr ''a''), (''y'', JNum (Fin 5))],
      [(''g'', JStr ''a''), (''y'', JNum (Fin 1))],
      [(''g'', JStr ''b''), (''y'', JStr ''n/a'')],
      [(''g'', JStr ''a''), (''y'', JNum (Fin 4))],
      [(''g'', JStr ''a''), (''y'', JStr ''2'')],
      [(''g'', JStr ''a''), (''y'', JNum (Fin 3))]] ''g'' ''y''
   = [\<lparr>box_x = ''a'', box_min = Some (Fin 1), box_q1 = Some (Fin 2), box_median = Some (Fin 3),
       box_q3 = Some (Fin 4), box_max = Some (Fin 5)\<rparr>]
   \<and> js_le (Fin 1) (Fin 2) \<and> js_le (Fin 2) (Fin 3) \<and> js_le (Fin 3) (Fin 4)
   \<and> js_le (Fin 4) (Fin 5)"
proof -
  let ?D = "[[(''g'', JStr ''a''), (''y'', JNum (Fin 5))],
      [(''g'', JStr ''a''), (''y'', JNum (Fin 1))],
      [(''g'', JStr ''b''), (''y'', JStr ''n/a'')],
      [(''g'', JStr ''a''), (''y'', JNum (Fin 4))],
      [(''g'', JStr ''a''), (''y'', JStr ''2'')],
      [(''g'', JStr ''a''), (''y'', JNum (Fin 3))]]"
  let ?E = "\<lparr>box_x = ''a'', box_min = Some (Fin 1), box_q1 = Some (Fin 2),
       box_median = Some (Fin 3), box_q3 = Some (Fin 4), box_max = Some (Fin 5)\<rparr>"
  have a: "processBoxData (\<lambda>n. '''') (\<lambda>s. if s = ''2'' then Fin 2 else NaN) ?D ''g'' ''y'' = [?E]"
    by code_simp
  have "\<forall>e \<in> set [?E].
        js_le (the (box_min e)) (the (box_q1 e))
        \<and> js_le (the (box_q1 e)) (the (box_median e))
        \<and> js_le (the (box_median e)) (the (box_q3 e))
        \<and> js_le (the (box_q3 e)) (the (box_max e))"
    using box_plot_quantiles[of "\<lambda>n. ''''" "\<lambda>s. if s = ''2'' then Fin 2 else NaN" ?D "''g''" "''y''"]
    unfolding a by blast
  then have "js_le (Fin 1) (Fin 2) \<and> js_le (Fin 2) (Fin 3) \<and> js_le (Fin 3) (Fin 4)
      \<and> js_le (Fin 4) (Fin 5)"
    by simp
  then show ?thesis using a by blast
qed

section \<open>Histogram of equal values\<close>

text \<open>
  C1. The claim has the bin counts add up to the number of parsed values, also when all
  values are equal, where every value is to fall in bin 0. On the three rows with
  \<open>x = 5\<close> the code does otherwise: minimum and maximum are both 5, there are
  \<open>min(10, ceil(sqrt(3))) = 2\<close> bins of width 0, the index of every value is
  \<open>Math.min(Math.floor(0 / 0), 1)\<close>, which is NaN, and \<open>bins[NaN]++\<close> increments no
  bin. Three values are parsed, both bins hold 0, and the counts add up to 0.
  (\<open>equal_values_fill_no_bin\<close> shows the same for every table whose parsed values are
  all one finite number; \<open>histogram_counts_sum\<close> shows that the counts do add up when
  the values are finite and not all equal.)
\<close>

theorem histogram_of_equal_values_counts_nothing:
  "histogram_values pf
      [[(''x'', JNum (Fin 5))], [(''x'', JNum (Fin 5))], [(''x'', JNum (Fin 5))]] ''x''
     = [Fin 5, Fin 5, Fin 5]
   \<and> processHistogramData pf
      [[(''x'', JNum (Fin 5))], [(''x'', JNum (Fin 5))], [(''x'', JNum (Fin 5))]] ''x''
     = [\<lparr>hist_x = Fin 5, hist_y = 0\<rparr>, \<lparr>hist_x = Fin 5, hist_y = 0\<rparr>]
   \<and> sum_list (map hist_y (processHistogramData pf
      [[(''x'', JNum (Fin 5))], [(''x'', JNum (Fin 5))], [(''x'', JNum (Fin 5))]] ''x'')) = 0"
  by code_simp

end
